theory Spec2Isabelle
  imports Complex_Main "HOL-Library.Word"
begin

unbundle bit_operations_syntax

section \<open>Bytes, slices and outcomes\<close>

text \<open>
  A \<open>Slice\<close> of the source (pointer and length) is the list of the bytes it covers; a
  \<open>std::vector<Slice>\<close> is a list of such lists. Sizes are \<open>size_t\<close> values and are
  natural numbers here; the two 32-bit quantities whose width matters (the footer length and
  \<open>PagePointer::size\<close>) are \<open>32 word\<close>.
\<close>

type_synonym byte = "8 word"
type_synonym Slice = "byte list"

text \<open>
  The outcome of a fallible call. \<open>CORRUPTION\<close>, \<open>IO_ERROR\<close>, \<open>INTERNAL_ERROR\<close> and
  \<open>INVALID_ARGUMENT\<close> are status codes. The other three are the ways the source leaves a
  function without a status: \<open>CHECK_FAILED\<close> is the process abort of a failed \<open>CHECK\<close>,
  \<open>CAST_OUT_OF_RANGE\<close> the exception of \<open>cast_set\<close> on a value that does not fit, and
  \<open>OUT_OF_BOUNDS\<close> a read outside the page buffer (undefined behaviour in C++).
\<close>

datatype ErrorCode =
    CORRUPTION | IO_ERROR | INTERNAL_ERROR | INVALID_ARGUMENT
  | CHECK_FAILED | CAST_OUT_OF_RANGE | OUT_OF_BOUNDS

definition compute_total_size :: "Slice list \<Rightarrow> nat" where
  "compute_total_size slices = sum_list (map length slices)"

definition cast_set_u32 :: "nat \<Rightarrow> ErrorCode + 32 word" where
  "cast_set_u32 n = (if n < 2 ^ 32 then Inr (of_nat n) else Inl CAST_OUT_OF_RANGE)"

subsection \<open>Fixed-width little-endian coding\<close>

text \<open>
  Modelled from the spec: \<open>encode_fixed32_le\<close>, \<open>put_fixed32_le\<close> and \<open>decode_fixed32_le\<close>
  of util/coding.h, which the sources at hand do not include: a 32-bit value as 4 bytes,
  least significant byte first.
\<close>

definition encode_fixed32_le :: "32 word \<Rightarrow> byte list" where
  "encode_fixed32_le v =
     [ucast v, ucast (drop_bit 8 v), ucast (drop_bit 16 v), ucast (drop_bit 24 v)]"

fun decode_fixed32_le :: "byte list \<Rightarrow> 32 word" where
  "decode_fixed32_le (b0 # b1 # b2 # b3 # _) =
     ucast b0 OR push_bit 8 (ucast b1) OR push_bit 16 (ucast b2) OR push_bit 24 (ucast b3)"
| "decode_fixed32_le _ = 0"

definition put_fixed32_le :: "byte list \<Rightarrow> 32 word \<Rightarrow> byte list" where
  "put_fixed32_le dst v = dst @ encode_fixed32_le v"

subsection \<open>CRC32C\<close>

text \<open>
  Modelled from the spec: \<open>crc32c::Value\<close> and \<open>crc32c::Extend\<close> of util/crc32c.h, which
  the sources at hand do not include. The spec names the checksum CRC32C: the reflected
  Castagnoli polynomial \<open>0x82F63B78\<close>, the register inverted before and after. One input
  byte is xor-ed into the low byte of the register, which then takes eight shift steps.
  \<open>Value\<close> on a vector of slices extends the checksum slice by slice.
\<close>

definition crc_bit_step :: "32 word \<Rightarrow> 32 word" where
  "crc_bit_step c = (if bit c 0 then drop_bit 1 c XOR 0x82F63B78 else drop_bit 1 c)"

definition crc_byte :: "32 word \<Rightarrow> byte \<Rightarrow> 32 word" where
  "crc_byte c b = (crc_bit_step ^^ 8) (c XOR ucast b)"

definition Extend :: "32 word \<Rightarrow> byte list \<Rightarrow> 32 word" where
  "Extend crc d = NOT (foldl crc_byte (NOT crc) d)"

definition Value :: "byte list \<Rightarrow> 32 word" where
  "Value d = Extend 0 d"

definition Value_slices :: "Slice list \<Rightarrow> 32 word" where
  "Value_slices slices = foldl Extend 0 slices"

section \<open>Pages\<close>

text \<open>
  \<open>PageFooterPB\<close> is a protobuf message (gen\_cpp/segment\_v2.pb.h). Optional fields are
  options, so that \<open>has_x()\<close> is \<open>x \<noteq> None\<close>. page\_io.cpp reads the type, the
  uncompressed size, which sub-footer is set, and \<open>nullmap_size\<close> of the data page footer;
  the contents of the other three sub-footers are the type parameter \<open>'m\<close>.
  \<open>OTHER_PAGE_TYPE\<close> stands for every enum value the \<open>switch\<close> of \<open>write_page\<close> sends to
  its \<open>default\<close> branch.
\<close>

datatype PageTypePB = DATA_PAGE | INDEX_PAGE | DICTIONARY_PAGE | SHORT_KEY_PAGE | OTHER_PAGE_TYPE

record DataPageFooterPB =
  first_ordinal :: nat
  num_values :: nat
  nullmap_size :: "32 word"

record 'm PageFooterPB =
  ftype :: "PageTypePB option"
  uncompressed_size :: "32 word option"
  data_page_footer :: "DataPageFooterPB option"
  index_page_footer :: "'m option"
  dict_page_footer :: "'m option"
  short_key_page_footer :: "'m option"

text \<open>The protobuf getters return the default 0 for a field that is not set.\<close>

definition get_uncompressed_size :: "'m PageFooterPB \<Rightarrow> 32 word" where
  "get_uncompressed_size f = (case uncompressed_size f of None \<Rightarrow> 0 | Some v \<Rightarrow> v)"

definition get_nullmap_size :: "'m PageFooterPB \<Rightarrow> 32 word" where
  "get_nullmap_size f = (case data_page_footer f of None \<Rightarrow> 0 | Some d \<Rightarrow> nullmap_size d)"

text \<open>
  What page\_io.cpp takes from outside: the protobuf wire format of the footer
  (\<open>SerializeToString\<close>; \<open>ParseFromArray\<close> and \<open>ParseFromString\<close> are one parser, \<open>None\<close>
  when it returns false), the hash of the block file cache and \<open>config::is_cloud_mode()\<close>.
\<close>

record 'm Env =
  SerializeToString :: "'m PageFooterPB \<Rightarrow> byte list"
  ParseFromArray :: "byte list \<Rightarrow> 'm PageFooterPB option"
  file_cache_hash :: "string \<Rightarrow> 128 word"
  is_cloud_mode :: bool

record PagePointer =
  pp_offset :: nat
  pp_size :: "32 word"

subsection \<open>The file writer\<close>

text \<open>
  \<open>io::FileWriter\<close> is an interface of the storage layer. Its model is an append-only byte
  sequence with a capacity, so that \<open>appendv\<close> has its error branch: an append that would
  exceed the capacity fails and writes nothing.
\<close>

record FileWriter =
  fw_data :: "byte list"
  fw_capacity :: nat

definition bytes_appended :: "FileWriter \<Rightarrow> nat" where
  "bytes_appended w = length (fw_data w)"

definition appendv :: "FileWriter \<Rightarrow> Slice list \<Rightarrow> ErrorCode + FileWriter" where
  "appendv w slices =
     (if length (fw_data w) + compute_total_size slices \<le> fw_capacity w
      then Inr (w\<lparr>fw_data := fw_data w @ concat slices\<rparr>)
      else Inl IO_ERROR)"

subsection \<open>PageIO::write\_page\<close>

text \<open>The \<open>CHECK\<close>s at the head of \<open>write_page\<close>.\<close>

definition footer_sanity_check :: "'m PageFooterPB \<Rightarrow> bool" where
  "footer_sanity_check footer =
     (ftype footer \<noteq> None \<and> uncompressed_size footer \<noteq> None \<and>
      (case ftype footer of
         Some DATA_PAGE \<Rightarrow> data_page_footer footer \<noteq> None
       | Some INDEX_PAGE \<Rightarrow> index_page_footer footer \<noteq> None
       | Some DICTIONARY_PAGE \<Rightarrow> dict_page_footer footer \<noteq> None
       | Some SHORT_KEY_PAGE \<Rightarrow> short_key_page_footer footer \<noteq> None
       | _ \<Rightarrow> False))"

text \<open>
  The slices appended by \<open>write_page\<close>: the body, then the serialized footer followed by
  its length (\<open>static_cast<uint32_t>\<close> of the size, which wraps), then the checksum of all
  of that.
\<close>

definition page_slices :: "'m Env \<Rightarrow> Slice list \<Rightarrow> 'm PageFooterPB \<Rightarrow> Slice list" where
  "page_slices env body footer =
     (let ser = SerializeToString env footer;
          footer_buf = put_fixed32_le ser (of_nat (length ser));
          page = body @ [footer_buf];
          checksum = Value_slices page
      in page @ [encode_fixed32_le checksum])"

text \<open>
  The result is the status with the pointer, and the writer as the call leaves it: when
  \<open>cast_set\<close> throws, the page has been appended already.
\<close>

definition write_page ::
  "'m Env \<Rightarrow> FileWriter \<Rightarrow> Slice list \<Rightarrow> 'm PageFooterPB \<Rightarrow> (ErrorCode + PagePointer) \<times> FileWriter"
where
  "write_page env writer body footer =
     (if \<not> footer_sanity_check footer then (Inl CHECK_FAILED, writer)
      else
        let page = page_slices env body footer;
            offset = bytes_appended writer
        in case appendv writer page of
             Inl e \<Rightarrow> (Inl e, writer)
           | Inr writer' \<Rightarrow>
               (case cast_set_u32 (bytes_appended writer' - offset) of
                  Inl e \<Rightarrow> (Inl e, writer')
                | Inr sz \<Rightarrow> (Inr \<lparr>pp_offset = offset, pp_size = sz\<rparr>, writer')))"

subsection \<open>PageIO::compress\_page\_body\<close>

text \<open>
  \<open>double\<close> values: the finite ones are real numbers (rounding is not modelled), and the
  two infinities and NaN are there because \<open>compress_page_body\<close> divides by the
  uncompressed size, which may be 0. Division, subtraction and the comparisons follow
  IEEE 754 on these four kinds of value: every comparison with NaN is false.
\<close>

datatype double = Finite real | PosInf | NegInf | NaN

definition double_of_size :: "nat \<Rightarrow> double" where
  "double_of_size n = Finite (real n)"

fun ddiv :: "double \<Rightarrow> double \<Rightarrow> double" where
  "ddiv (Finite a) (Finite b) =
     (if b = 0 then (if a = 0 then NaN else if 0 < a then PosInf else NegInf)
      else Finite (a / b))"
| "ddiv (Finite a) PosInf = Finite 0"
| "ddiv (Finite a) NegInf = Finite 0"
| "ddiv (Finite a) NaN = NaN"
| "ddiv PosInf b = (case b of Finite y \<Rightarrow> (if y < 0 then NegInf else PosInf) | _ \<Rightarrow> NaN)"
| "ddiv NegInf b = (case b of Finite y \<Rightarrow> (if y < 0 then PosInf else NegInf) | _ \<Rightarrow> NaN)"
| "ddiv NaN b = NaN"

fun dsub :: "double \<Rightarrow> double \<Rightarrow> double" where
  "dsub (Finite a) (Finite b) = Finite (a - b)"
| "dsub (Finite a) PosInf = NegInf"
| "dsub (Finite a) NegInf = PosInf"
| "dsub (Finite a) NaN = NaN"
| "dsub PosInf b = (if b = PosInf \<or> b = NaN then NaN else PosInf)"
| "dsub NegInf b = (if b = NegInf \<or> b = NaN then NaN else NegInf)"
| "dsub NaN b = NaN"

fun dless :: "double \<Rightarrow> double \<Rightarrow> bool" where
  "dless (Finite a) (Finite b) = (a < b)"
| "dless (Finite a) PosInf = True"
| "dless NegInf (Finite b) = True"
| "dless NegInf PosInf = True"
| "dless _ _ = False"

definition dle :: "double \<Rightarrow> double \<Rightarrow> bool" where
  "dle a b = (dless a b \<or> (a = b \<and> a \<noteq> NaN))"

text \<open>
  \<open>BlockCompressionCodec\<close> is an interface (util/block\_compression.h); a codec is the
  record of the three methods page\_io.cpp calls. \<open>decompress\<close> takes the input and the
  capacity of the output slice and returns the bytes it produced.
\<close>

record BlockCompressionCodec =
  exceed_max_compress_len :: "nat \<Rightarrow> bool"
  compress :: "Slice list \<Rightarrow> ErrorCode + byte list"
  decompress :: "byte list \<Rightarrow> nat \<Rightarrow> ErrorCode + byte list"

text \<open>
  \<open>1.0 - (cast_set<double>(buf.size()) / cast_set<double>(uncompressed_size))\<close>, the local
  \<open>space_saving\<close> of \<open>compress_page_body\<close>.
\<close>

definition space_saving :: "nat \<Rightarrow> nat \<Rightarrow> double" where
  "space_saving buf_size total_size =
     dsub (Finite 1) (ddiv (double_of_size buf_size) (double_of_size total_size))"

text \<open>The result is the \<open>OwnedSlice\<close> \<open>compressed_body\<close>; the empty slice is \<open>[]\<close>.\<close>

definition compress_page_body ::
  "BlockCompressionCodec option \<Rightarrow> double \<Rightarrow> Slice list \<Rightarrow> ErrorCode + byte list"
where
  "compress_page_body codec min_space_saving body =
     (let uncompressed_size = compute_total_size body
      in case codec of
           None \<Rightarrow> Inr []
         | Some c \<Rightarrow>
             if exceed_max_compress_len c uncompressed_size then Inr []
             else (case compress c body of
                     Inl e \<Rightarrow> Inl e
                   | Inr buf \<Rightarrow>
                       if dless (Finite 0) (space_saving (length buf) uncompressed_size) \<and>
                          dle min_space_saving (space_saving (length buf) uncompressed_size)
                       then Inr buf
                       else Inr []))"


subsection \<open>File readers and caches\<close>

text \<open>
  \<open>io::FileReader\<close> is an interface. A direct reader serves the bytes of its file; a
  \<open>CachedRemoteFileReader\<close> wraps a remote reader, and \<open>dynamic_cast\<close> to it succeeds on
  this constructor only. A read beyond the end of the file is an I/O error.
\<close>

datatype FileReader =
    DirectFileReader string "byte list"
  | CachedRemoteFileReader FileReader

fun path_of :: "FileReader \<Rightarrow> string" where
  "path_of (DirectFileReader p d) = p"
| "path_of (CachedRemoteFileReader r) = path_of r"

fun content_of :: "FileReader \<Rightarrow> byte list" where
  "content_of (DirectFileReader p d) = d"
| "content_of (CachedRemoteFileReader r) = content_of r"

definition size_of :: "FileReader \<Rightarrow> nat" where
  "size_of r = length (content_of r)"

definition read_range :: "byte list \<Rightarrow> nat \<Rightarrow> nat \<Rightarrow> ErrorCode + byte list" where
  "read_range d off n = (if off + n \<le> length d then Inr (take n (drop off d)) else Inl IO_ERROR)"

record OlapReaderStatistics =
  total_pages_num :: nat
  cached_pages_num :: nat
  compressed_bytes_read :: nat
  uncompressed_bytes_read :: nat

text \<open>
  The state a read works on: the statistics behind \<open>opts.stats\<close>, the process-wide
  \<open>StoragePageCache\<close> (\<open>None\<close> when \<open>instance()\<close> is null) keyed by page type, file name,
  file size and offset, and the block file cache of the tiered readers (\<open>None\<close> when
  \<open>get_by_path\<close> finds none) keyed by the hash of the file's base name. Eviction is not
  modelled: an inserted entry stays until it is removed.
\<close>

type_synonym CacheKey = "string \<times> nat \<times> nat"

record ReadState =
  stats :: OlapReaderStatistics
  page_cache :: "(PageTypePB \<times> CacheKey \<rightharpoonup> byte list) option"
  file_cache :: "(128 word \<rightharpoonup> byte list) option"

text \<open>\<open>std::string::rfind\<close>: the last index of the character, \<open>None\<close> for \<open>npos\<close>.\<close>

definition rfind :: "string \<Rightarrow> char \<Rightarrow> nat option" where
  "rfind s c =
     (if c \<in> set s then Some (length s - 1 - length (takeWhile (\<lambda>x. x \<noteq> c) (rev s)))
      else None)"

text \<open>\<open>seg_path.substr(seg_path.rfind('/') + 1)\<close>, where \<open>npos + 1\<close> wraps to 0.\<close>

definition file_cache_key_from_path :: "'m Env \<Rightarrow> string \<Rightarrow> 128 word" where
  "file_cache_key_from_path env seg_path =
     (let base = drop (case rfind seg_path CHR ''/'' of None \<Rightarrow> 0 | Some i \<Rightarrow> i + 1) seg_path
      in file_cache_hash env base)"

text \<open>
  Modelled from the spec: \<open>CachedRemoteFileReader::read_at\<close> (io/cache) is not among the
  sources at hand. By the spec the tiered reader has a local cache in front of a remote
  reader: a cached file is served from the local copy, and a file that is not cached is
  fetched from the remote reader and kept.
\<close>

fun read_at ::
  "'m Env \<Rightarrow> FileReader \<Rightarrow> nat \<Rightarrow> nat \<Rightarrow> ReadState \<Rightarrow> (ErrorCode + byte list) \<times> ReadState"
where
  "read_at env (DirectFileReader p d) off n st = (read_range d off n, st)"
| "read_at env (CachedRemoteFileReader r) off n st =
     (case file_cache st of
        None \<Rightarrow> read_at env r off n st
      | Some fc \<Rightarrow>
          (case fc (file_cache_key_from_path env (path_of r)) of
             Some local \<Rightarrow> (read_range local off n, st)
           | None \<Rightarrow>
               (read_range (content_of r) off n,
                st\<lparr>file_cache :=
                     Some (fc(file_cache_key_from_path env (path_of r) \<mapsto> content_of r))\<rparr>)))"

subsection \<open>PageIO::read\_and\_decompress\_page\_\<close>

text \<open>
  A pre-decoder takes the page and the size of its tail (null map, footer, footer length)
  and returns the decoded page.
\<close>

type_synonym DataPagePreDecoder = "byte list \<Rightarrow> nat \<Rightarrow> ErrorCode + byte list"

record EncodingInfo =
  get_data_page_pre_decoder :: "DataPagePreDecoder option"

record PageReadOptions =
  use_page_cache :: bool
  kept_in_memory :: bool
  pre_decode :: bool
  page_type :: PageTypePB
  file_reader :: FileReader
  page_pointer :: PagePointer
  codec :: "BlockCompressionCodec option"
  verify_checksum :: bool
  encoding_info :: "EncodingInfo option"

text \<open>A handle owns its page or shares it with the page cache; \<open>handle_data\<close> is \<open>data()\<close>.\<close>

datatype PageHandle = PageHandle_owned "byte list" | PageHandle_cached "byte list"

fun handle_data :: "PageHandle \<Rightarrow> byte list" where
  "handle_data (PageHandle_owned d) = d"
| "handle_data (PageHandle_cached d) = d"

definition upd_stats :: "(OlapReaderStatistics \<Rightarrow> OlapReaderStatistics) \<Rightarrow> ReadState \<Rightarrow> ReadState" where
  "upd_stats f st = st\<lparr>stats := f (stats st)\<rparr>"

definition cache_key_of :: "PageReadOptions \<Rightarrow> CacheKey" where
  "cache_key_of opts =
     (path_of (file_reader opts), size_of (file_reader opts), pp_offset (page_pointer opts))"

text \<open>\<open>opts.use_page_cache && cache && cache->lookup(cache_key, &cache_handle, opts.type)\<close>\<close>

definition lookup_page_cache :: "PageReadOptions \<Rightarrow> ReadState \<Rightarrow> byte list option" where
  "lookup_page_cache opts st =
     (if use_page_cache opts
      then (case page_cache st of None \<Rightarrow> None | Some c \<Rightarrow> c (page_type opts, cache_key_of opts))
      else None)"

text \<open>
  The footer length is the \<open>uint32\<close> in the last 4 bytes of a page without its checksum.
  The source computes \<open>data + size - 4 - footer_size\<close> unchecked; where that leaves the
  page the outcome is \<open>OUT_OF_BOUNDS\<close>.
\<close>

definition footer_size_of :: "byte list \<Rightarrow> nat" where
  "footer_size_of page_slice = unat (decode_fixed32_le (drop (length page_slice - 4) page_slice))"

text \<open>Lines 139 to 153: the page was found in the cache.\<close>

definition read_cached_page ::
  "'m Env \<Rightarrow> byte list \<Rightarrow> ReadState \<Rightarrow>
   (ErrorCode + PageHandle \<times> byte list \<times> 'm PageFooterPB) \<times> ReadState"
where
  "read_cached_page env page_slice st =
     (let st1 = upd_stats (\<lambda>s. s\<lparr>cached_pages_num := cached_pages_num s + 1\<rparr>) st;
          footer_size = footer_size_of page_slice
      in if length page_slice < 4 \<or> length page_slice - 4 < footer_size
         then (Inl OUT_OF_BOUNDS, st1)
         else
           case ParseFromArray env
                  (take footer_size (drop (length page_slice - 4 - footer_size) page_slice)) of
             None \<Rightarrow> (Inl CORRUPTION, st1)
           | Some footer \<Rightarrow>
               let body = take (length page_slice - 4 - footer_size) page_slice
               in (Inr (PageHandle_cached page_slice, body, footer),
                   upd_stats (\<lambda>s. s\<lparr>uncompressed_bytes_read :=
                                       uncompressed_bytes_read s + length body\<rparr>) st1))"

text \<open>
  Lines 199 to 225: the body is decompressed when its size differs from the footer's
  \<open>uncompressed_size\<close>; the footer and its length are copied behind the decompressed body.
\<close>

definition decompress_page ::
  "PageReadOptions \<Rightarrow> 'm PageFooterPB \<Rightarrow> nat \<Rightarrow> byte list \<Rightarrow> ErrorCode + byte list"
where
  "decompress_page opts footer footer_size page_slice =
     (let body_size = length page_slice - 4 - footer_size
      in if (of_nat body_size :: 32 word) \<noteq> get_uncompressed_size footer
         then (case codec opts of
                 None \<Rightarrow> Inl CORRUPTION
               | Some c \<Rightarrow>
                   (case decompress c (take body_size page_slice)
                           (unat (get_uncompressed_size footer)) of
                      Inl e \<Rightarrow> Inl e
                    | Inr decompressed_body \<Rightarrow>
                        if length decompressed_body \<noteq> unat (get_uncompressed_size footer)
                        then Inl CORRUPTION
                        else Inr (decompressed_body @
                                  take (footer_size + 4) (drop body_size page_slice))))
         else Inr page_slice)"

text \<open>Lines 227 to 234: the optional pre-decoding; the tail size is \<open>uint32\<close> arithmetic.\<close>

definition pre_decode_page ::
  "PageReadOptions \<Rightarrow> 'm PageFooterPB \<Rightarrow> nat \<Rightarrow> byte list \<Rightarrow> ErrorCode + byte list"
where
  "pre_decode_page opts footer footer_size page_slice =
     (if pre_decode opts
      then (case encoding_info opts of
              None \<Rightarrow> Inr page_slice
            | Some info \<Rightarrow>
                (case get_data_page_pre_decoder info of
                   None \<Rightarrow> Inr page_slice
                 | Some pre_decoder \<Rightarrow>
                     pre_decoder page_slice
                       (unat (get_nullmap_size footer + of_nat footer_size + 4))))
      else Inr page_slice)"

text \<open>
  Lines 236 to 250: the body slice is cut, the counter updated and the page handed to the
  cache or to the caller.
\<close>

definition finish_page ::
  "PageReadOptions \<Rightarrow> 'm PageFooterPB \<Rightarrow> nat \<Rightarrow> byte list \<Rightarrow> ReadState \<Rightarrow>
   (ErrorCode + PageHandle \<times> byte list \<times> 'm PageFooterPB) \<times> ReadState"
where
  "finish_page opts footer footer_size page_slice st =
     (if length page_slice < 4 + footer_size then (Inl OUT_OF_BOUNDS, st)
      else
        let body = take (length page_slice - 4 - footer_size) page_slice;
            st3 = upd_stats (\<lambda>s. s\<lparr>uncompressed_bytes_read :=
                                    uncompressed_bytes_read s + length body\<rparr>) st
        in case (if use_page_cache opts then page_cache st3 else None) of
             Some c \<Rightarrow>
               (Inr (PageHandle_cached page_slice, body, footer),
                st3\<lparr>page_cache := Some (c((page_type opts, cache_key_of opts) \<mapsto> page_slice))\<rparr>)
           | None \<Rightarrow> (Inr (PageHandle_owned page_slice, body, footer), st3))"

text \<open>
  Lines 189 to 234, on the page without its checksum: the footer is parsed, the body
  decompressed and pre-decoded.
\<close>

definition parse_page ::
  "'m Env \<Rightarrow> PageReadOptions \<Rightarrow> byte list \<Rightarrow> ReadState \<Rightarrow>
   (ErrorCode + PageHandle \<times> byte list \<times> 'm PageFooterPB) \<times> ReadState"
where
  "parse_page env opts page_slice st =
     (let footer_size = footer_size_of page_slice
      in if length page_slice - 4 < footer_size then (Inl OUT_OF_BOUNDS, st)
         else
           case ParseFromArray env
                  (take footer_size (drop (length page_slice - 4 - footer_size) page_slice)) of
             None \<Rightarrow> (Inl CORRUPTION, st)
           | Some footer \<Rightarrow>
               (case decompress_page opts footer footer_size page_slice of
                  Inl e \<Rightarrow> (Inl e, st)
                | Inr page_slice1 \<Rightarrow>
                    (case pre_decode_page opts footer footer_size page_slice1 of
                       Inl e \<Rightarrow> (Inl e, st)
                     | Inr page_slice2 \<Rightarrow> finish_page opts footer footer_size page_slice2 st)))"

text \<open>
  Lines 156 to 187: the size check, the read and the checksum. The injection point of
  line 181 is compiled out of a production build and has no counterpart here.
\<close>

definition checksum_mismatch :: "byte list \<Rightarrow> bool" where
  "checksum_mismatch page_slice =
     (decode_fixed32_le (drop (length page_slice - 4) page_slice) \<noteq>
      Value (take (length page_slice - 4) page_slice))"

definition read_page_from_file ::
  "'m Env \<Rightarrow> PageReadOptions \<Rightarrow> ReadState \<Rightarrow>
   (ErrorCode + PageHandle \<times> byte list \<times> 'm PageFooterPB) \<times> ReadState"
where
  "read_page_from_file env opts st =
     (let page_size = unat (pp_size (page_pointer opts))
      in if page_size < 8 then (Inl CORRUPTION, st)
         else
           case read_at env (file_reader opts) (pp_offset (page_pointer opts)) page_size st of
             (Inl e, st1) \<Rightarrow> (Inl e, st1)
           | (Inr page_slice, st1) \<Rightarrow>
               let st2 = upd_stats (\<lambda>s. s\<lparr>compressed_bytes_read :=
                                            compressed_bytes_read s + page_size\<rparr>) st1
               in if verify_checksum opts \<and> checksum_mismatch page_slice
                  then (Inl CORRUPTION, st2)
                  else parse_page env opts (take (length page_slice - 4) page_slice) st2)"

text \<open>
  \<open>read_and_decompress_page_impl\<close> is the source's \<open>read_and_decompress_page_\<close>, whose name
  ends in an underscore.
\<close>

definition read_and_decompress_page_impl ::
  "'m Env \<Rightarrow> PageReadOptions \<Rightarrow> ReadState \<Rightarrow>
   (ErrorCode + PageHandle \<times> byte list \<times> 'm PageFooterPB) \<times> ReadState"
where
  "read_and_decompress_page_impl env opts st =
     (let st0 = upd_stats (\<lambda>s. s\<lparr>total_pages_num := total_pages_num s + 1\<rparr>) st
      in case lookup_page_cache opts st0 of
           Some page_slice \<Rightarrow> read_cached_page env page_slice st0
         | None \<Rightarrow> read_page_from_file env opts st0)"

subsection \<open>PageIO::read\_and\_decompress\_page\<close>

text \<open>
  \<open>do_read_and_decompress_page\<close> (page\_io.h) calls \<open>read_and_decompress_page_\<close> and turns
  an exception into a status; the outcomes above are statuses already.
\<close>

definition do_read_and_decompress_page ::
  "'m Env \<Rightarrow> PageReadOptions \<Rightarrow> ReadState \<Rightarrow>
   (ErrorCode + PageHandle \<times> byte list \<times> 'm PageFooterPB) \<times> ReadState"
where
  "do_read_and_decompress_page env opts st = read_and_decompress_page_impl env opts st"

definition is_corruption :: "ErrorCode + 'a \<Rightarrow> bool" where
  "is_corruption r = (r = Inl CORRUPTION)"

text \<open>\<open>file_cache->remove_if_cached(file_key)\<close>, when a file cache was found.\<close>

definition remove_if_cached :: "128 word \<Rightarrow> ReadState \<Rightarrow> ReadState" where
  "remove_if_cached file_key st =
     (case file_cache st of
        None \<Rightarrow> st
      | Some fc \<Rightarrow> st\<lparr>file_cache := Some (fc(file_key := None))\<rparr>)"

definition read_and_decompress_page ::
  "'m Env \<Rightarrow> PageReadOptions \<Rightarrow> ReadState \<Rightarrow>
   (ErrorCode + PageHandle \<times> byte list \<times> 'm PageFooterPB) \<times> ReadState"
where
  "read_and_decompress_page env opts st =
     (case do_read_and_decompress_page env opts st of
        (r1, st1) \<Rightarrow>
          if \<not> is_corruption r1 \<or> \<not> is_cloud_mode env then (r1, st1)
          else
            (case file_reader opts of
               DirectFileReader p d \<Rightarrow> (r1, st1)
             | CachedRemoteFileReader remote_reader \<Rightarrow>
                 let file_key = file_cache_key_from_path env (path_of (file_reader opts));
                     st2 = remove_if_cached file_key st1
                 in (case do_read_and_decompress_page env opts st2 of
                       (r2, st3) \<Rightarrow>
                         if \<not> is_corruption r2 then (r2, st3)
                         else do_read_and_decompress_page env
                                (opts\<lparr>file_reader := remote_reader\<rparr>) st3)))"

subsection \<open>A small wire format for concrete pages\<close>

text \<open>
  The protobuf wire format is a parameter of the model. To run the definitions on concrete
  pages, this footer encoding stands in for it: one byte for the page type and the
  uncompressed size as 4 bytes. It round-trips the footers \<open>sample_footer t n\<close>.
\<close>

definition sample_footer :: "PageTypePB \<Rightarrow> 32 word \<Rightarrow> unit PageFooterPB" where
  "sample_footer t n =
     \<lparr>ftype = Some t, uncompressed_size = Some n,
      data_page_footer =
        (if t = DATA_PAGE then Some \<lparr>first_ordinal = 0, num_values = 0, nullmap_size = 0\<rparr>
         else None),
      index_page_footer = (if t = INDEX_PAGE then Some () else None),
      dict_page_footer = (if t = DICTIONARY_PAGE then Some () else None),
      short_key_page_footer = (if t = SHORT_KEY_PAGE then Some () else None)\<rparr>"

definition sample_type_tag :: "PageTypePB \<Rightarrow> byte" where
  "sample_type_tag t =
     (case t of DATA_PAGE \<Rightarrow> 1 | INDEX_PAGE \<Rightarrow> 2 | DICTIONARY_PAGE \<Rightarrow> 3
      | SHORT_KEY_PAGE \<Rightarrow> 4 | OTHER_PAGE_TYPE \<Rightarrow> 0)"

definition sample_serialize :: "unit PageFooterPB \<Rightarrow> byte list" where
  "sample_serialize f =
     sample_type_tag (case ftype f of None \<Rightarrow> OTHER_PAGE_TYPE | Some t \<Rightarrow> t) #
     encode_fixed32_le (get_uncompressed_size f)"

definition sample_parse :: "byte list \<Rightarrow> unit PageFooterPB option" where
  "sample_parse bs =
     (case bs of
        [tag, b0, b1, b2, b3] \<Rightarrow>
          (if tag = 1 then Some (sample_footer DATA_PAGE (decode_fixed32_le [b0, b1, b2, b3]))
           else if tag = 2 then Some (sample_footer INDEX_PAGE (decode_fixed32_le [b0, b1, b2, b3]))
           else if tag = 3
             then Some (sample_footer DICTIONARY_PAGE (decode_fixed32_le [b0, b1, b2, b3]))
           else if tag = 4
             then Some (sample_footer SHORT_KEY_PAGE (decode_fixed32_le [b0, b1, b2, b3]))
           else None)
      | _ \<Rightarrow> None)"

definition sample_env :: "bool \<Rightarrow> unit Env" where
  "sample_env cloud =
     \<lparr>SerializeToString = sample_serialize, ParseFromArray = sample_parse,
      file_cache_hash = (\<lambda>s. of_nat (length s)), is_cloud_mode = cloud\<rparr>"

definition empty_stats :: OlapReaderStatistics where
  "empty_stats = \<lparr>total_pages_num = 0, cached_pages_num = 0, compressed_bytes_read = 0,
                  uncompressed_bytes_read = 0\<rparr>"

text \<open>
  A toy codec for bodies of at most 255 zero bytes: the compressed body is the length in
  one byte.
\<close>

definition zero_run_codec :: BlockCompressionCodec where
  "zero_run_codec =
     \<lparr>exceed_max_compress_len = (\<lambda>n. 255 < n),
      compress = (\<lambda>slices. Inr [of_nat (compute_total_size slices)]),
      decompress = (\<lambda>input capacity.
         case input of [n] \<Rightarrow> Inr (replicate (unat n) 0) | _ \<Rightarrow> Inl INVALID_ARGUMENT)\<rparr>"

definition sample_opts :: "FileReader \<Rightarrow> PagePointer \<Rightarrow> bool \<Rightarrow> PageReadOptions" where
  "sample_opts reader ptr verify =
     \<lparr>use_page_cache = False, kept_in_memory = False, pre_decode = False,
      page_type = DATA_PAGE, file_reader = reader, page_pointer = ptr, codec = None,
      verify_checksum = verify, encoding_info = None\<rparr>"

section \<open>Page layout written by write\_page\<close>

lemma decode_encode_fixed32_le: "decode_fixed32_le (encode_fixed32_le v) = v"
  unfolding encode_fixed32_le_def decode_fixed32_le.simps
proof (rule bit_word_eqI)
  fix n assume "n < LENGTH(32)"
  then consider "n < 8" | "8 \<le> n \<and> n < 16" | "16 \<le> n \<and> n < 24" | "24 \<le> n \<and> n < 32"
    by fastforce
  then show "bit (ucast (ucast v :: byte) OR push_bit 8 (ucast (ucast (drop_bit 8 v) :: byte)) OR
       push_bit 16 (ucast (ucast (drop_bit 16 v) :: byte)) OR
       push_bit 24 (ucast (ucast (drop_bit 24 v) :: byte)) :: 32 word) n = bit v n"
    by cases (auto simp add: bit_or_iff bit_push_bit_iff bit_ucast_iff bit_drop_bit_eq)
qed

lemma length_encode_fixed32_le [simp]: "length (encode_fixed32_le v) = 4"
  by (simp add: encode_fixed32_le_def)

lemma Extend_append: "Extend (Extend c xs) ys = Extend c (xs @ ys)"
  by (simp add: Extend_def)

lemma foldl_Extend: "foldl Extend c slices = Extend c (concat slices)"
proof (induction slices arbitrary: c)
  case Nil
  show ?case by (simp add: Extend_def)
next
  case (Cons s slices)
  show ?case by (simp add: Cons.IH Extend_append)
qed

lemma Value_slices_concat: "Value_slices slices = Value (concat slices)"
  by (simp add: Value_slices_def Value_def foldl_Extend)

lemma compute_total_size_concat: "compute_total_size slices = length (concat slices)"
  by (simp add: compute_total_size_def length_concat)

lemma concat_page_slices:
  "concat (page_slices env body footer) =
     (let payload = concat body @ SerializeToString env footer @
                    encode_fixed32_le (of_nat (length (SerializeToString env footer)))
      in payload @ encode_fixed32_le (Value payload))"
  by (simp add: page_slices_def Let_def put_fixed32_le_def Value_slices_concat)

lemma length_page_slices:
  "length (concat (page_slices env body footer)) =
     compute_total_size body + length (SerializeToString env footer) + 4 + 4"
  by (simp add: concat_page_slices Let_def compute_total_size_concat)

lemma bytes_appended_appendv:
  "appendv w slices = Inr w' \<Longrightarrow> bytes_appended w' = bytes_appended w + compute_total_size slices"
  by (auto simp: appendv_def bytes_appended_def compute_total_size_concat split: if_splits)

text \<open>
  C3. For a footer that passes the sanity checks, a writer that accepts the append and a
  page below 4 GiB, \<open>write_page\<close> appends the body bytes, the serialized footer, the
  footer length as 4 bytes little-endian and the 4-byte little-endian CRC32C of
  body, footer and footer length, in this order. It returns the pointer whose offset is the
  position of the writer before the call and whose size is the number of bytes written,
  which is body size + footer size + 4 + 4.
\<close>

theorem write_page_layout:
  fixes env :: "'m Env"
  assumes sane: "footer_sanity_check footer"
    and room: "bytes_appended writer + compute_total_size body +
               length (SerializeToString env footer) + 8 \<le> fw_capacity writer"
    and small: "compute_total_size body + length (SerializeToString env footer) + 8 < 2 ^ 32"
  defines "ser \<equiv> SerializeToString env footer"
  defines "len4 \<equiv> encode_fixed32_le (of_nat (length ser))"
  defines "crc4 \<equiv> encode_fixed32_le (Value (concat body @ ser @ len4))"
  shows "\<exists>ptr writer'.
           write_page env writer body footer = (Inr ptr, writer') \<and>
           fw_data writer' = fw_data writer @ concat body @ ser @ len4 @ crc4 \<and>
           unat (decode_fixed32_le len4) = length ser \<and>
           pp_offset ptr = bytes_appended writer \<and>
           unat (pp_size ptr) = bytes_appended writer' - bytes_appended writer \<and>
           unat (pp_size ptr) = compute_total_size body + length ser + 4 + 4"
proof -
  let ?page = "page_slices env body footer"
  let ?w = "writer\<lparr>fw_data := fw_data writer @ concat ?page\<rparr>"
  have tot: "compute_total_size ?page = compute_total_size body + length ser + 4 + 4"
    by (simp add: compute_total_size_concat [of "page_slices env body footer"]
        length_page_slices ser_def)
  have app: "appendv writer ?page = Inr ?w"
    using room by (simp add: appendv_def tot ser_def bytes_appended_def)
  have grown: "bytes_appended ?w - bytes_appended writer = compute_total_size body + length ser + 8"
    using bytes_appended_appendv [OF app] tot by simp
  have fits: "compute_total_size body + length ser + 8 < (2::nat) ^ 32"
    using small by (simp add: ser_def)
  let ?sz = "of_nat (compute_total_size body + length ser + 8) :: 32 word"
  have cast: "cast_set_u32 (bytes_appended ?w - bytes_appended writer) = Inr ?sz"
    using fits by (simp add: cast_set_u32_def grown)
  have wp: "write_page env writer body footer =
              (Inr \<lparr>pp_offset = bytes_appended writer, pp_size = ?sz\<rparr>, ?w)"
    using sane by (simp add: write_page_def Let_def app cast)
  have usz: "unat ?sz = compute_total_size body + length ser + 8"
    by (rule of_nat_inverse [OF refl]) (use fits in simp)
  have "length ser < (2::nat) ^ 32" using fits by simp
  then have ulen: "unat (of_nat (length ser) :: 32 word) = length ser"
    by (intro of_nat_inverse [OF refl]) simp
  have data: "fw_data ?w = fw_data writer @ concat body @ ser @ len4 @ crc4"
    by (simp add: concat_page_slices Let_def ser_def len4_def crc4_def)
  show ?thesis
    using wp data usz grown ulen
    by (simp add: len4_def decode_encode_fixed32_le)
qed

lemma sample_serialize_length [simp]: "length (sample_serialize f) = 5"
  by (simp add: sample_serialize_def)

lemma sample_footer_sane:
  "t \<noteq> OTHER_PAGE_TYPE \<Longrightarrow> footer_sanity_check (sample_footer t n)"
  by (cases t) (simp_all add: footer_sanity_check_def sample_footer_def)

theorem write_page_layout_witness:
  "footer_sanity_check (sample_footer DATA_PAGE 3) \<and>
   bytes_appended \<lparr>fw_data = [7], fw_capacity = 100\<rparr> + compute_total_size [[1, 2], [3]] +
     length (SerializeToString (sample_env False) (sample_footer DATA_PAGE 3)) + 8 \<le>
     fw_capacity \<lparr>fw_data = [7], fw_capacity = 100\<rparr> \<and>
   compute_total_size [[1, 2], [3]] +
     length (SerializeToString (sample_env False) (sample_footer DATA_PAGE 3)) + 8 < 2 ^ 32 \<and>
   (\<exists>ptr writer'.
      write_page (sample_env False) \<lparr>fw_data = [7], fw_capacity = 100\<rparr> [[1, 2], [3]]
        (sample_footer DATA_PAGE 3) = (Inr ptr, writer') \<and>
      take 4 (fw_data writer') = [7, 1, 2, 3] \<and>
      pp_offset ptr = 1 \<and> unat (pp_size ptr) = 16 \<and> length (fw_data writer') = 17)"
proof -
  let ?w = "\<lparr>fw_data = [7], fw_capacity = 100\<rparr>"
  let ?F = "sample_footer DATA_PAGE 3"
  have h1: "footer_sanity_check ?F"
    by (simp add: sample_footer_sane)
  have h2: "bytes_appended ?w + compute_total_size [[1, 2], [3]] +
              length (SerializeToString (sample_env False) ?F) + 8 \<le> fw_capacity ?w"
    by (simp add: bytes_appended_def compute_total_size_def sample_env_def)
  have h3: "compute_total_size [[1, 2], [3]] +
              length (SerializeToString (sample_env False) ?F) + 8 < 2 ^ 32"
    by (simp add: compute_total_size_def sample_env_def)
  from write_page_layout [OF h1 h2 h3]
  obtain ptr writer' where
    "write_page (sample_env False) ?w [[1, 2], [3]] ?F = (Inr ptr, writer')"
    "fw_data writer' = fw_data ?w @ concat [[1, 2], [3]] @
       SerializeToString (sample_env False) ?F @
       encode_fixed32_le (of_nat (length (SerializeToString (sample_env False) ?F))) @
       encode_fixed32_le (Value (concat [[1, 2], [3]] @ SerializeToString (sample_env False) ?F @
         encode_fixed32_le (of_nat (length (SerializeToString (sample_env False) ?F)))))"
    "pp_offset ptr = bytes_appended ?w"
    "unat (pp_size ptr) = compute_total_size [[1, 2], [3]] +
       length (SerializeToString (sample_env False) ?F) + 4 + 4"
    by blast
  then have "write_page (sample_env False) ?w [[1, 2], [3]] ?F = (Inr ptr, writer') \<and>
      take 4 (fw_data writer') = [7, 1, 2, 3] \<and>
      pp_offset ptr = 1 \<and> unat (pp_size ptr) = 16 \<and> length (fw_data writer') = 17"
    by (simp add: bytes_appended_def compute_total_size_def sample_env_def)
  then show ?thesis using h1 h2 h3 by blast
qed

section \<open>Compression\<close>





lemma zero_run_compress_1:
  "compress_page_body (Some zero_run_codec) (Finite (1 / 10)) [[0]] = Inr []"
  by (simp add: compress_page_body_def zero_run_codec_def compute_total_size_def
      space_saving_def double_of_size_def dle_def)


lemma decompress_page_raw:
  "of_nat (length page_slice - 4 - footer_size) = get_uncompressed_size footer \<Longrightarrow>
   decompress_page opts footer footer_size page_slice = Inr page_slice"
  by (simp add: decompress_page_def Let_def)




section \<open>Reading from the page cache\<close>

lemma lookup_page_cache_upd_stats [simp]:
  "lookup_page_cache opts (upd_stats f st) = lookup_page_cache opts st"
  by (simp add: lookup_page_cache_def upd_stats_def)

lemma read_impl_hit:
  "lookup_page_cache opts st = Some page_slice \<Longrightarrow>
   read_and_decompress_page_impl env opts st =
     read_cached_page env page_slice
       (upd_stats (\<lambda>s. s\<lparr>total_pages_num := total_pages_num s + 1\<rparr>) st)"
  by (simp add: read_and_decompress_page_impl_def)

lemma read_impl_miss:
  "lookup_page_cache opts st = None \<Longrightarrow>
   read_and_decompress_page_impl env opts st =
     read_page_from_file env opts
       (upd_stats (\<lambda>s. s\<lparr>total_pages_num := total_pages_num s + 1\<rparr>) st)"
  by (simp add: read_and_decompress_page_impl_def)

lemma lookup_page_cache_cong:
  "use_page_cache opts' = use_page_cache opts \<Longrightarrow> page_type opts' = page_type opts \<Longrightarrow>
   file_reader opts' = file_reader opts \<Longrightarrow>
   pp_offset (page_pointer opts') = pp_offset (page_pointer opts) \<Longrightarrow>
   lookup_page_cache opts' st = lookup_page_cache opts st"
  by (simp add: lookup_page_cache_def cache_key_of_def split: option.splits)

text \<open>
  C9. On a cache hit the function returns the cached bytes: the handle holds the cached
  page, the body is its prefix before the footer, and the page cache and the file cache
  are left as they were. Nothing else of the options is consulted: the result is the same
  for every page size in the pointer (also below 8), with or without checksum
  verification, codec and pre-decoding. For a cached page that holds its footer, the only
  failure is \<open>CORRUPTION\<close>, exactly when the footer bytes fail to parse.
\<close>

theorem cache_hit_returns_cached_page:
  fixes env :: "'m Env"
  assumes hit: "lookup_page_cache opts st = Some page_slice"
    and wf: "4 \<le> length page_slice" "footer_size_of page_slice \<le> length page_slice - 4"
  defines "footer_size \<equiv> footer_size_of page_slice"
  defines "footer_buf \<equiv> take footer_size (drop (length page_slice - 4 - footer_size) page_slice)"
  defines "res \<equiv> read_and_decompress_page_impl env opts st"
  shows "(ParseFromArray env footer_buf = None \<longrightarrow> fst res = Inl CORRUPTION) \<and>
         (\<forall>footer. ParseFromArray env footer_buf = Some footer \<longrightarrow>
            fst res = Inr (PageHandle_cached page_slice,
                           take (length page_slice - 4 - footer_size) page_slice, footer)) \<and>
         (\<forall>e. fst res = Inl e \<longrightarrow> e = CORRUPTION \<and> ParseFromArray env footer_buf = None) \<and>
         page_cache (snd res) = page_cache st \<and> file_cache (snd res) = file_cache st \<and>
         cached_pages_num (stats (snd res)) = cached_pages_num (stats st) + 1 \<and>
         compressed_bytes_read (stats (snd res)) = compressed_bytes_read (stats st) \<and>
         (\<forall>sz v cd pd ei.
            read_and_decompress_page_impl env
              (opts\<lparr>page_pointer := \<lparr>pp_offset = pp_offset (page_pointer opts), pp_size = sz\<rparr>,
                    verify_checksum := v, codec := cd, pre_decode := pd, encoding_info := ei\<rparr>) st
            = res)"
proof -
  have r: "res = read_cached_page env page_slice
       (upd_stats (\<lambda>s. s\<lparr>total_pages_num := total_pages_num s + 1\<rparr>) st)"
    unfolding res_def by (rule read_impl_hit [OF hit])
  have nb: "\<not> (length page_slice < 4 \<or> length page_slice - 4 < footer_size_of page_slice)"
    using wf by simp
  have indep: "read_and_decompress_page_impl env
              (opts\<lparr>page_pointer := \<lparr>pp_offset = pp_offset (page_pointer opts), pp_size = sz\<rparr>,
                    verify_checksum := v, codec := cd, pre_decode := pd, encoding_info := ei\<rparr>) st
            = res" for sz v cd pd ei
  proof -
    have "lookup_page_cache
            (opts\<lparr>page_pointer := \<lparr>pp_offset = pp_offset (page_pointer opts), pp_size = sz\<rparr>,
                  verify_checksum := v, codec := cd, pre_decode := pd, encoding_info := ei\<rparr>) st
          = lookup_page_cache opts st"
      by (rule lookup_page_cache_cong) simp_all
    then have "lookup_page_cache
            (opts\<lparr>page_pointer := \<lparr>pp_offset = pp_offset (page_pointer opts), pp_size = sz\<rparr>,
                  verify_checksum := v, codec := cd, pre_decode := pd, encoding_info := ei\<rparr>) st
          = Some page_slice"
      using hit by simp
    from read_impl_hit [OF this] show ?thesis by (simp add: r)
  qed
  show ?thesis
  proof (cases "ParseFromArray env footer_buf")
    case None
    then have "res = (Inl CORRUPTION,
        upd_stats (\<lambda>s. s\<lparr>cached_pages_num := cached_pages_num s + 1\<rparr>)
          (upd_stats (\<lambda>s. s\<lparr>total_pages_num := total_pages_num s + 1\<rparr>) st))"
      using nb unfolding r read_cached_page_def Let_def footer_buf_def footer_size_def
      by simp
    then show ?thesis using None indep by (simp add: upd_stats_def)
  next
    case (Some footer)
    then have "res = (Inr (PageHandle_cached page_slice,
                           take (length page_slice - 4 - footer_size) page_slice, footer),
        upd_stats (\<lambda>s. s\<lparr>uncompressed_bytes_read := uncompressed_bytes_read s +
              length (take (length page_slice - 4 - footer_size) page_slice)\<rparr>)
         (upd_stats (\<lambda>s. s\<lparr>cached_pages_num := cached_pages_num s + 1\<rparr>)
          (upd_stats (\<lambda>s. s\<lparr>total_pages_num := total_pages_num s + 1\<rparr>) st)))"
      using nb unfolding r read_cached_page_def Let_def footer_buf_def footer_size_def
      by simp
    then show ?thesis using Some indep by (simp add: upd_stats_def)
  qed
qed

lemma decode_fixed32_le_bytes:
  "decode_fixed32_le [ucast v, ucast (drop_bit 8 v), ucast (drop_bit 16 v), ucast (drop_bit 24 v)] = v"
  using decode_encode_fixed32_le [of v] by (simp only: encode_fixed32_le_def)

declare decode_fixed32_le.simps [simp del]

lemma footer_size_of_append_len:
  "length ser < 2 ^ 32 \<Longrightarrow>
   footer_size_of (xs @ encode_fixed32_le (of_nat (length ser))) = length ser"
  unfolding footer_size_of_def
  by (simp add: decode_encode_fixed32_le) (rule of_nat_inverse [OF refl], simp)

lemma sample_parse_serialize:
  "t \<noteq> OTHER_PAGE_TYPE \<Longrightarrow> sample_parse (sample_serialize (sample_footer t n)) = Some (sample_footer t n)"
  by (cases t)
     (simp_all add: sample_parse_def sample_serialize_def sample_footer_def sample_type_tag_def
        get_uncompressed_size_def encode_fixed32_le_def decode_fixed32_le_bytes)

lemma encode_5: "encode_fixed32_le 5 = [5, 0, 0, 0]"
  by (simp add: encode_fixed32_le_def drop_bit_eq_div)

theorem cache_hit_returns_cached_page_witness:
  "lookup_page_cache
     ((sample_opts (DirectFileReader ''seg'' []) \<lparr>pp_offset = 0, pp_size = 0\<rparr> True)
        \<lparr>use_page_cache := True\<rparr>)
     \<lparr>stats = empty_stats,
      page_cache = Some [(DATA_PAGE, ''seg'', 0, 0) \<mapsto>
        [9, 9] @ sample_serialize (sample_footer DATA_PAGE 2) @ encode_fixed32_le 5],
      file_cache = None\<rparr>
     = Some ([9, 9] @ sample_serialize (sample_footer DATA_PAGE 2) @ encode_fixed32_le 5) \<and>
   4 \<le> length ([9, 9 :: byte] @ sample_serialize (sample_footer DATA_PAGE 2) @ encode_fixed32_le 5) \<and>
   footer_size_of ([9, 9] @ sample_serialize (sample_footer DATA_PAGE 2) @ encode_fixed32_le 5)
     \<le> length ([9, 9 :: byte] @ sample_serialize (sample_footer DATA_PAGE 2) @ encode_fixed32_le 5) - 4 \<and>
   fst (read_and_decompress_page_impl (sample_env False)
     ((sample_opts (DirectFileReader ''seg'' []) \<lparr>pp_offset = 0, pp_size = 0\<rparr> True)
        \<lparr>use_page_cache := True\<rparr>)
     \<lparr>stats = empty_stats,
      page_cache = Some [(DATA_PAGE, ''seg'', 0, 0) \<mapsto>
        [9, 9] @ sample_serialize (sample_footer DATA_PAGE 2) @ encode_fixed32_le 5],
      file_cache = None\<rparr>)
   = Inr (PageHandle_cached
            ([9, 9] @ sample_serialize (sample_footer DATA_PAGE 2) @ encode_fixed32_le 5),
          [9, 9], sample_footer DATA_PAGE 2)"
proof -
  let ?page = "[9, 9 :: byte] @ sample_serialize (sample_footer DATA_PAGE 2) @ encode_fixed32_le 5"
  let ?opts = "(sample_opts (DirectFileReader ''seg'' []) \<lparr>pp_offset = 0, pp_size = 0\<rparr> True)
        \<lparr>use_page_cache := True\<rparr>"
  let ?st = "\<lparr>stats = empty_stats,
      page_cache = Some [(DATA_PAGE, ''seg'', 0, 0) \<mapsto> ?page], file_cache = None\<rparr>"
  have fs: "footer_size_of ?page = 5"
    using footer_size_of_append_len [of "sample_serialize (sample_footer DATA_PAGE 2)"
        "[9, 9] @ sample_serialize (sample_footer DATA_PAGE 2)"]
    by simp
  have h1: "lookup_page_cache ?opts ?st = Some ?page"
    by (simp add: lookup_page_cache_def sample_opts_def cache_key_of_def size_of_def)
  have h2: "4 \<le> length ?page" by simp
  have h3: "footer_size_of ?page \<le> length ?page - 4" unfolding fs by simp
  have p: "ParseFromArray (sample_env False)
             (take (footer_size_of ?page) (drop (length ?page - 4 - footer_size_of ?page) ?page))
           = Some (sample_footer DATA_PAGE 2)"
    unfolding fs by (simp add: sample_env_def sample_parse_serialize)
  note th = cache_hit_returns_cached_page [OF h1 h2 h3, where env = "sample_env False"]
  have "fst (read_and_decompress_page_impl (sample_env False) ?opts ?st) =
          Inr (PageHandle_cached ?page,
               take (length ?page - 4 - footer_size_of ?page) ?page, sample_footer DATA_PAGE 2)"
    using th [THEN conjunct2, THEN conjunct1, rule_format, OF p] .
  then have "fst (read_and_decompress_page_impl (sample_env False) ?opts ?st) =
          Inr (PageHandle_cached ?page, [9, 9], sample_footer DATA_PAGE 2)"
    unfolding fs by simp
  then show ?thesis using h1 h2 h3 by blast
qed

section \<open>CRC32C detects a changed byte\<close>

lemma xor_cancel_right32: "(a XOR c = b XOR c) = (a = (b::32 word))"
  by (metis xor.assoc xor_self_eq xor.right_neutral)

lemma xor_cancel_left32: "(c XOR a = c XOR b) = (a = (b::32 word))"
  by (metis xor.assoc xor_self_eq xor.left_neutral)

lemma crc_bit_step_top: "bit (crc_bit_step x) 31 = bit x 0"
  unfolding crc_bit_step_def
  by (auto simp add: bit_xor_iff bit_drop_bit_eq dest: bit_imp_le_length)

lemma crc_bit_step_inj:
  assumes "crc_bit_step x = crc_bit_step y"
  shows "x = y"
proof -
  have b0: "bit x 0 = bit y 0"
    using assms crc_bit_step_top by metis
  have d: "drop_bit 1 x = drop_bit 1 y"
    using assms b0 unfolding crc_bit_step_def
    by (auto split: if_splits simp: xor_cancel_right32)
  show ?thesis
  proof (rule bit_word_eqI)
    fix n assume "n < LENGTH(32)"
    show "bit x n = bit y n"
    proof (cases n)
      case 0
      then show ?thesis using b0 by simp
    next
      case (Suc m)
      have "bit (drop_bit 1 x) m = bit (drop_bit 1 y) m" using d by simp
      then show ?thesis using Suc by (simp add: bit_drop_bit_eq)
    qed
  qed
qed

lemma crc_bit_steps_inj: "(crc_bit_step ^^ k) x = (crc_bit_step ^^ k) y \<Longrightarrow> x = y"
  by (induction k) (auto dest: crc_bit_step_inj)

lemma ucast_byte_inj:
  assumes "(ucast (a::byte) :: 32 word) = ucast b"
  shows "a = b"
proof (rule bit_word_eqI)
  fix n assume n: "n < LENGTH(8)"
  have "bit (ucast a :: 32 word) n = bit (ucast b :: 32 word) n"
    using assms by simp
  then show "bit a n = bit b n"
    using n by (simp add: bit_ucast_iff)
qed

lemma crc_byte_inj_state: "crc_byte x b = crc_byte y b \<Longrightarrow> x = y"
  unfolding crc_byte_def
  by (auto simp: xor_cancel_right32 dest!: crc_bit_steps_inj)

lemma crc_byte_inj_byte: "crc_byte x a = crc_byte x b \<Longrightarrow> a = b"
  unfolding crc_byte_def
  by (auto simp: xor_cancel_left32 dest!: crc_bit_steps_inj ucast_byte_inj)

lemma foldl_crc_byte_inj: "foldl crc_byte x bs = foldl crc_byte y bs \<Longrightarrow> x = y"
  by (induction bs arbitrary: x y) (auto dest: crc_byte_inj_state)

lemma not_inj_32: "(NOT a = NOT b) = (a = (b::32 word))"
  by simp

lemma Value_changed_byte:
  assumes i: "i < length bs" and b: "b \<noteq> bs ! i"
  shows "Value (bs[i := b]) \<noteq> Value bs"
proof
  assume eq: "Value (bs[i := b]) = Value bs"
  have l: "bs = take i bs @ bs ! i # drop (Suc i) bs"
    using i by (simp add: id_take_nth_drop)
  have u: "bs[i := b] = take i bs @ b # drop (Suc i) bs"
    using i by (simp add: upd_conv_take_nth_drop)
  let ?s = "foldl crc_byte (NOT 0) (take i bs)"
  have "foldl crc_byte (NOT 0) (take i bs @ b # drop (Suc i) bs) =
        foldl crc_byte (NOT 0) (take i bs @ bs ! i # drop (Suc i) bs)"
    using eq unfolding Value_def Extend_def not_inj_32 using l u by simp
  then have "foldl crc_byte (crc_byte ?s b) (drop (Suc i) bs) =
             foldl crc_byte (crc_byte ?s (bs ! i)) (drop (Suc i) bs)"
    by simp
  then have "crc_byte ?s b = crc_byte ?s (bs ! i)"
    by (rule foldl_crc_byte_inj)
  then show False using b by (auto dest: crc_byte_inj_byte)
qed

lemma encode_decode_fixed32_le:
  "encode_fixed32_le (decode_fixed32_le [b0, b1, b2, b3]) = [b0, b1, b2, b3]"
  unfolding encode_fixed32_le_def decode_fixed32_le.simps
  apply simp
  apply (intro conjI bit_word_eqI)
  apply (auto simp add: bit_or_iff bit_push_bit_iff bit_ucast_iff bit_drop_bit_eq
      dest: bit_imp_le_length)
  done

lemma length_4_cases: "length xs = 4 \<Longrightarrow> \<exists>a b c d. xs = [a, b, c, d]"
  by (cases xs; simp; cases "tl xs"; simp; cases "tl (tl xs)"; simp; cases "tl (tl (tl xs))"; simp)

lemma decode_fixed32_le_inj:
  assumes "length xs = 4" "length ys = 4" "decode_fixed32_le xs = decode_fixed32_le ys"
  shows "xs = ys"
proof -
  obtain a b c d where xs: "xs = [a, b, c, d]" using length_4_cases [OF assms(1)] by blast
  obtain e f g h where ys: "ys = [e, f, g, h]" using length_4_cases [OF assms(2)] by blast
  have "encode_fixed32_le (decode_fixed32_le xs) = encode_fixed32_le (decode_fixed32_le ys)"
    using assms(3) by simp
  then show ?thesis unfolding xs ys encode_decode_fixed32_le .
qed

section \<open>The checks of a page read from the file\<close>


lemma decompress_page_corruption:
  "(decompress_page opts footer footer_size page_slice = Inl CORRUPTION) =
     ((of_nat (length page_slice - 4 - footer_size) :: 32 word) \<noteq> get_uncompressed_size footer \<and>
      (codec opts = None \<or>
       (\<exists>c. codec opts = Some c \<and>
          (decompress c (take (length page_slice - 4 - footer_size) page_slice)
             (unat (get_uncompressed_size footer)) = Inl CORRUPTION \<or>
           (\<exists>d. decompress c (take (length page_slice - 4 - footer_size) page_slice)
                  (unat (get_uncompressed_size footer)) = Inr d \<and>
                length d \<noteq> unat (get_uncompressed_size footer))))))"
  by (auto simp: decompress_page_def Let_def split: option.splits sum.splits)





lemma read_range_middle:
  "read_range (pre @ page @ post) (length pre) (length page) = Inr page"
  by (simp add: read_range_def)

lemma checksum_mismatch_append:
  "length c4 = 4 \<Longrightarrow> checksum_mismatch (payload @ c4) = (decode_fixed32_le c4 \<noteq> Value payload)"
  by (simp add: checksum_mismatch_def)

lemma read_page_from_file_direct:
  assumes fr: "file_reader opts = DirectFileReader p (pre @ page @ post)"
    and off: "pp_offset (page_pointer opts) = length pre"
    and sz: "unat (pp_size (page_pointer opts)) = length page"
    and n8: "8 \<le> length page"
  shows "read_page_from_file env opts st =
           (if verify_checksum opts \<and> checksum_mismatch page
            then (Inl CORRUPTION,
                  upd_stats (\<lambda>s. s\<lparr>compressed_bytes_read :=
                                compressed_bytes_read s + length page\<rparr>) st)
            else parse_page env opts (take (length page - 4) page)
                   (upd_stats (\<lambda>s. s\<lparr>compressed_bytes_read :=
                                 compressed_bytes_read s + length page\<rparr>) st))"
  using n8 by (simp add: read_page_from_file_def fr off sz read_range_middle Let_def)



lemma sample_opts_simps [simp]:
  "use_page_cache (sample_opts r ptr v) = False"
  "pre_decode (sample_opts r ptr v) = False"
  "file_reader (sample_opts r ptr v) = r"
  "page_pointer (sample_opts r ptr v) = ptr"
  "codec (sample_opts r ptr v) = None"
  "verify_checksum (sample_opts r ptr v) = v"
  "encoding_info (sample_opts r ptr v) = None"
  "page_type (sample_opts r ptr v) = DATA_PAGE"
  by (simp_all add: sample_opts_def)

lemma lookup_page_cache_off [simp]: "\<not> use_page_cache opts \<Longrightarrow> lookup_page_cache opts st = None"
  by (simp add: lookup_page_cache_def)





section \<open>Reading back a written page\<close>

lemma write_page_success:
  fixes env :: "'m Env"
  assumes sane: "footer_sanity_check footer"
    and room: "bytes_appended writer + compute_total_size body +
               length (SerializeToString env footer) + 8 \<le> fw_capacity writer"
    and small: "compute_total_size body + length (SerializeToString env footer) + 8 < 2 ^ 32"
  shows "write_page env writer body footer =
           (Inr \<lparr>pp_offset = bytes_appended writer,
                 pp_size = of_nat (compute_total_size body +
                                   length (SerializeToString env footer) + 8)\<rparr>,
            writer\<lparr>fw_data := fw_data writer @ concat (page_slices env body footer)\<rparr>)"
proof -
  let ?page = "page_slices env body footer"
  let ?w = "writer\<lparr>fw_data := fw_data writer @ concat ?page\<rparr>"
  have tot: "compute_total_size ?page =
               compute_total_size body + length (SerializeToString env footer) + 4 + 4"
    by (simp add: compute_total_size_concat [of "page_slices env body footer"] length_page_slices)
  have app: "appendv writer ?page = Inr ?w"
    using room by (simp add: appendv_def tot bytes_appended_def)
  have grown: "bytes_appended ?w - bytes_appended writer =
                 compute_total_size body + length (SerializeToString env footer) + 8"
    using bytes_appended_appendv [OF app] tot by simp
  have cast: "cast_set_u32 (bytes_appended ?w - bytes_appended writer) =
                Inr (of_nat (compute_total_size body + length (SerializeToString env footer) + 8))"
    using small unfolding grown by (simp add: cast_set_u32_def)
  show ?thesis
    using sane by (simp add: write_page_def Let_def app cast)
qed

lemma write_page_Inr:
  fixes env :: "'m Env"
  assumes "write_page env writer body footer = (Inr ptr, writer')"
  shows "footer_sanity_check footer \<and>
         bytes_appended writer + compute_total_size body +
           length (SerializeToString env footer) + 8 \<le> fw_capacity writer \<and>
         compute_total_size body + length (SerializeToString env footer) + 8 < 2 ^ 32"
proof -
  let ?page = "page_slices env body footer"
  have tot: "compute_total_size ?page =
               compute_total_size body + length (SerializeToString env footer) + 4 + 4"
    by (simp add: compute_total_size_concat [of "page_slices env body footer"] length_page_slices)
  have sane: "footer_sanity_check footer"
    using assms by (auto simp: write_page_def split: if_splits)
  obtain w1 where app: "appendv writer ?page = Inr w1"
    using assms sane by (auto simp: write_page_def Let_def split: sum.splits)
  have room: "bytes_appended writer + compute_total_size body +
           length (SerializeToString env footer) + 8 \<le> fw_capacity writer"
    using app by (auto simp: appendv_def tot bytes_appended_def split: if_splits)
  have "\<exists>sz. cast_set_u32 (bytes_appended w1 - bytes_appended writer) = Inr sz"
    using assms sane app by (auto simp: write_page_def Let_def split: sum.splits)
  then have "bytes_appended w1 - bytes_appended writer < 2 ^ 32"
    by (auto simp: cast_set_u32_def split: if_splits)
  then have small: "compute_total_size body + length (SerializeToString env footer) + 8 < 2 ^ 32"
    using bytes_appended_appendv [OF app] tot by simp
  show ?thesis using sane room small by blast
qed

lemma footer_size_of_layout:
  "length F < 2 ^ 32 \<Longrightarrow> footer_size_of (B @ F @ encode_fixed32_le (of_nat (length F))) = length F"
  using footer_size_of_append_len [of F "B @ F"] by simp

lemma parse_page_layout:
  assumes F: "length F < 2 ^ 32"
  shows "parse_page env opts (B @ F @ encode_fixed32_le (of_nat (length F))) st =
           (case ParseFromArray env F of
              None \<Rightarrow> (Inl CORRUPTION, st)
            | Some footer \<Rightarrow>
                (case decompress_page opts footer (length F)
                        (B @ F @ encode_fixed32_le (of_nat (length F))) of
                   Inl e \<Rightarrow> (Inl e, st)
                 | Inr page_slice1 \<Rightarrow>
                     (case pre_decode_page opts footer (length F) page_slice1 of
                        Inl e \<Rightarrow> (Inl e, st)
                      | Inr page_slice2 \<Rightarrow> finish_page opts footer (length F) page_slice2 st)))"
  unfolding parse_page_def Let_def footer_size_of_layout [OF F]
  by simp

lemma pre_decode_page_none:
  "pre_decode opts \<longrightarrow>
     (\<forall>info. encoding_info opts = Some info \<longrightarrow> get_data_page_pre_decoder info = None) \<Longrightarrow>
   pre_decode_page opts footer footer_size page_slice = Inr page_slice"
  by (auto simp: pre_decode_page_def split: option.splits)

lemma finish_page_layout:
  "\<exists>handle st'.
     finish_page opts footer (length F) (B @ F @ encode_fixed32_le v) st =
       (Inr (handle, B, footer), st') \<and> handle_data handle = B @ F @ encode_fixed32_le v"
  by (auto simp: finish_page_def Let_def split: option.splits)

lemma read_stored_page:
  fixes env :: "'m Env"
  assumes fr: "file_reader opts =
                 DirectFileReader p (pre @ (B @ F @ encode_fixed32_le (of_nat (length F)) @ C) @ post)"
    and off: "pp_offset (page_pointer opts) = length pre"
    and sz: "unat (pp_size (page_pointer opts)) = length B + length F + 8"
    and C: "length C = 4"
    and small: "length B + length F + 8 < 2 ^ 32"
    and crc: "verify_checksum opts \<longrightarrow>
                decode_fixed32_le C = Value (B @ F @ encode_fixed32_le (of_nat (length F)))"
    and parse: "ParseFromArray env F = Some footer"
    and usz: "get_uncompressed_size footer = of_nat (length B)"
    and nopre: "pre_decode opts \<longrightarrow>
       (\<forall>info. encoding_info opts = Some info \<longrightarrow> get_data_page_pre_decoder info = None)"
    and miss: "lookup_page_cache opts st = None"
  shows "\<exists>handle st'.
           read_and_decompress_page_impl env opts st = (Inr (handle, B, footer), st')"
proof -
  let ?len4 = "encode_fixed32_le (of_nat (length F) :: 32 word)"
  let ?payload = "B @ F @ ?len4"
  let ?page = "?payload @ C"
  have F: "length F < 2 ^ 32" using small by simp
  have lp: "length ?page = length B + length F + 8" by (simp add: C)
  have fr': "file_reader opts = DirectFileReader p (pre @ ?page @ post)"
    using fr by simp
  have sz': "unat (pp_size (page_pointer opts)) = length ?page"
    using sz lp by simp
  have n8: "8 \<le> length ?page" using lp by simp
  have nm: "\<not> (verify_checksum opts \<and> checksum_mismatch ?page)"
    using crc checksum_mismatch_append [OF C, of ?payload] by auto
  have tk: "take (length ?page - 4) ?page = ?payload"
    by (simp add: C)
  have bs: "length ?payload - 4 - length F = length B" by simp
  have dp: "decompress_page opts footer (length F) ?payload = Inr ?payload"
    by (rule decompress_page_raw) (simp only: bs usz)
  have pp: "pre_decode_page opts footer (length F) ?payload = Inr ?payload"
    by (rule pre_decode_page_none [OF nopre])
  have parse_eq: "parse_page env opts ?payload s = finish_page opts footer (length F) ?payload s"
    for s
    unfolding parse_page_layout [OF F] by (simp add: parse dp pp)
  obtain handle st' where
    "finish_page opts footer (length F) ?payload
       (upd_stats (\<lambda>s. s\<lparr>compressed_bytes_read := compressed_bytes_read s + length ?page\<rparr>)
          (upd_stats (\<lambda>s. s\<lparr>total_pages_num := total_pages_num s + 1\<rparr>) st))
     = (Inr (handle, B, footer), st')"
    using finish_page_layout by blast
  then have "read_and_decompress_page_impl env opts st = (Inr (handle, B, footer), st')"
    unfolding read_impl_miss [OF miss]
      read_page_from_file_direct [OF fr' off sz' n8] tk
    using nm parse_eq by simp
  then show ?thesis by blast
qed

lemma read_and_decompress_page_direct:
  "file_reader opts = DirectFileReader p d \<Longrightarrow>
   read_and_decompress_page env opts st = read_and_decompress_page_impl env opts st"
  by (simp add: read_and_decompress_page_def do_read_and_decompress_page_def split: prod.splits)

text \<open>
  C1. Let \<open>write_page\<close> accept a body and a footer whose \<open>uncompressed_size\<close> is the total
  size of the body, with a footer parser that inverts the serializer on this footer. Then a
  read at the returned pointer from the file as written (also after later appends), with
  checksum verification, no cached page under the key and no pre-decoder, succeeds and
  returns the concatenated body bytes and the footer, for every footer type and also for
  the empty body.
\<close>

theorem page_round_trip:
  fixes env :: "'m Env"
  assumes wr: "write_page env writer body footer = (Inr ptr, writer')"
    and parse: "ParseFromArray env (SerializeToString env footer) = Some footer"
    and usz: "uncompressed_size footer = Some (of_nat (compute_total_size body))"
    and fr: "file_reader opts = DirectFileReader p (fw_data writer' @ later)"
    and pp: "page_pointer opts = ptr"
    and vc: "verify_checksum opts"
    and nopre: "pre_decode opts \<longrightarrow>
       (\<forall>info. encoding_info opts = Some info \<longrightarrow> get_data_page_pre_decoder info = None)"
    and miss: "lookup_page_cache opts st = None"
  shows "\<exists>handle st'.
           read_and_decompress_page_impl env opts st = (Inr (handle, concat body, footer), st') \<and>
           read_and_decompress_page env opts st = (Inr (handle, concat body, footer), st')"
proof -
  let ?ser = "SerializeToString env footer"
  let ?len4 = "encode_fixed32_le (of_nat (length ?ser) :: 32 word)"
  let ?payload = "concat body @ ?ser @ ?len4"
  note w = write_page_Inr [OF wr]
  have small: "length (concat body) + length ?ser + 8 < 2 ^ 32"
    using w by (simp add: compute_total_size_concat)
  have eq: "(Inr ptr, writer') =
           (Inr \<lparr>pp_offset = bytes_appended writer,
                 pp_size = of_nat (compute_total_size body + length ?ser + 8)\<rparr>,
            writer\<lparr>fw_data := fw_data writer @ concat (page_slices env body footer)\<rparr>)"
    using write_page_success [of footer writer body env] w wr by simp
  have ptr: "pp_offset ptr = length (fw_data writer)"
    "pp_size ptr = of_nat (length (concat body) + length ?ser + 8)"
    using eq by (auto simp: bytes_appended_def compute_total_size_concat)
  have data: "fw_data writer' = fw_data writer @ ?payload @ encode_fixed32_le (Value ?payload)"
    using eq by (auto simp: concat_page_slices Let_def)
  have fr': "file_reader opts =
       DirectFileReader p (fw_data writer @
         (concat body @ ?ser @ ?len4 @ encode_fixed32_le (Value ?payload)) @ later)"
    using fr data by simp
  have sz: "unat (pp_size (page_pointer opts)) = length (concat body) + length ?ser + 8"
    unfolding pp ptr by (rule of_nat_inverse [OF refl]) (use small in simp)
  have off: "pp_offset (page_pointer opts) = length (fw_data writer)"
    by (simp add: pp ptr)
  have gus: "get_uncompressed_size footer = of_nat (length (concat body))"
    by (simp add: get_uncompressed_size_def usz compute_total_size_concat)
  have "\<exists>handle st'.
           read_and_decompress_page_impl env opts st = (Inr (handle, concat body, footer), st')"
    by (rule read_stored_page [OF fr' off sz _ small _ parse gus nopre miss])
       (simp_all add: decode_encode_fixed32_le)
  then show ?thesis
    using read_and_decompress_page_direct [OF fr, where env = env and st = st] by auto
qed

lemma read_stored_page_no_codec:
  fixes env :: "'m Env"
  assumes fr: "file_reader opts =
                 DirectFileReader p (pre @ (B @ F @ encode_fixed32_le (of_nat (length F)) @ C) @ post)"
    and off: "pp_offset (page_pointer opts) = length pre"
    and sz: "unat (pp_size (page_pointer opts)) = length B + length F + 8"
    and C: "length C = 4"
    and small: "length B + length F + 8 < 2 ^ 32"
    and crc: "verify_checksum opts \<longrightarrow>
                decode_fixed32_le C = Value (B @ F @ encode_fixed32_le (of_nat (length F)))"
    and parse: "ParseFromArray env F = Some footer"
    and usz: "get_uncompressed_size footer \<noteq> of_nat (length B)"
    and nocodec: "codec opts = None"
    and miss: "lookup_page_cache opts st = None"
  shows "fst (read_and_decompress_page_impl env opts st) = Inl CORRUPTION"
proof -
  let ?len4 = "encode_fixed32_le (of_nat (length F) :: 32 word)"
  let ?payload = "B @ F @ ?len4"
  let ?page = "?payload @ C"
  have F: "length F < 2 ^ 32" using small by simp
  have lp: "length ?page = length B + length F + 8" by (simp add: C)
  have fr': "file_reader opts = DirectFileReader p (pre @ ?page @ post)"
    using fr by simp
  have sz': "unat (pp_size (page_pointer opts)) = length ?page"
    using sz lp by simp
  have n8: "8 \<le> length ?page" using lp by simp
  have nm: "\<not> (verify_checksum opts \<and> checksum_mismatch ?page)"
    using crc checksum_mismatch_append [OF C, of ?payload] by auto
  have tk: "take (length ?page - 4) ?page = ?payload"
    by (simp add: C)
  have dp: "decompress_page opts footer (length F) ?payload = Inl CORRUPTION"
    unfolding decompress_page_corruption using usz nocodec by simp
  have "fst (parse_page env opts ?payload s) = Inl CORRUPTION" for s
    unfolding parse_page_layout [OF F] by (simp add: parse dp)
  then show ?thesis
    unfolding read_impl_miss [OF miss]
      read_page_from_file_direct [OF fr' off sz' n8] tk
    using nm by simp
qed

lemma sample_serialize_footer:
  "sample_serialize (sample_footer t n) = sample_type_tag t # encode_fixed32_le n"
  by (simp add: sample_serialize_def sample_footer_def get_uncompressed_size_def)

lemma sample_env_simps [simp]:
  "SerializeToString (sample_env c) = sample_serialize"
  "ParseFromArray (sample_env c) = sample_parse"
  "is_cloud_mode (sample_env c) = c"
  by (simp_all add: sample_env_def)

lemma get_uncompressed_size_sample [simp]: "get_uncompressed_size (sample_footer t n) = n"
  by (simp add: get_uncompressed_size_def sample_footer_def)

lemma sample_write_empty:
  "write_page (sample_env False) \<lparr>fw_data = [], fw_capacity = 100\<rparr> [] (sample_footer DATA_PAGE 1) =
     (Inr \<lparr>pp_offset = 0, pp_size = 13\<rparr>,
      \<lparr>fw_data = concat (page_slices (sample_env False) [] (sample_footer DATA_PAGE 1)),
       fw_capacity = 100\<rparr>)"
  using write_page_success [of "sample_footer DATA_PAGE 1" "\<lparr>fw_data = [], fw_capacity = 100\<rparr>"
      "[]" "sample_env False"]
  by (simp add: sample_footer_sane bytes_appended_def compute_total_size_def)

lemma sample_read_empty:
  "fst (read_and_decompress_page_impl (sample_env False)
          (sample_opts
             (DirectFileReader ''seg''
                (concat (page_slices (sample_env False) [] (sample_footer DATA_PAGE 1))))
             \<lparr>pp_offset = 0, pp_size = 13\<rparr> True)
          \<lparr>stats = empty_stats, page_cache = None, file_cache = None\<rparr>) = Inl CORRUPTION"
proof -
  let ?F = "sample_serialize (sample_footer DATA_PAGE 1)"
  let ?payload = "[] @ ?F @ encode_fixed32_le (of_nat (length ?F))"
  let ?opts = "sample_opts
             (DirectFileReader ''seg''
                (concat (page_slices (sample_env False) [] (sample_footer DATA_PAGE 1))))
             \<lparr>pp_offset = 0, pp_size = 13\<rparr> True"
  have fr: "file_reader ?opts = DirectFileReader ''seg''
        ([] @ ([] @ ?F @ encode_fixed32_le (of_nat (length ?F)) @
              encode_fixed32_le (Value ?payload)) @ [])"
    by (simp add: concat_page_slices Let_def)
  show ?thesis
    by (rule read_stored_page_no_codec [OF fr, where footer = "sample_footer DATA_PAGE 1"])
       (simp_all add: decode_encode_fixed32_le sample_parse_serialize)
qed

theorem page_round_trip_counterexample:
  "write_page (sample_env False) \<lparr>fw_data = [], fw_capacity = 100\<rparr> [] (sample_footer DATA_PAGE 1) =
     (Inr \<lparr>pp_offset = 0, pp_size = 13\<rparr>,
      \<lparr>fw_data = concat (page_slices (sample_env False) [] (sample_footer DATA_PAGE 1)),
       fw_capacity = 100\<rparr>) \<and>
   fst (read_and_decompress_page_impl (sample_env False)
          (sample_opts
             (DirectFileReader ''seg''
                (concat (page_slices (sample_env False) [] (sample_footer DATA_PAGE 1))))
             \<lparr>pp_offset = 0, pp_size = 13\<rparr> True)
          \<lparr>stats = empty_stats, page_cache = None, file_cache = None\<rparr>) = Inl CORRUPTION \<and>
   fst (read_and_decompress_page (sample_env False)
          (sample_opts
             (DirectFileReader ''seg''
                (concat (page_slices (sample_env False) [] (sample_footer DATA_PAGE 1))))
             \<lparr>pp_offset = 0, pp_size = 13\<rparr> True)
          \<lparr>stats = empty_stats, page_cache = None, file_cache = None\<rparr>) = Inl CORRUPTION"
  using sample_write_empty sample_read_empty
  by (simp add: read_and_decompress_page_direct [where p = "''seg''"])

theorem page_round_trip_witness:
  "write_page (sample_env False) \<lparr>fw_data = [7], fw_capacity = 100\<rparr> [[1, 2], [3]]
       (sample_footer INDEX_PAGE 3) =
     (Inr \<lparr>pp_offset = 1, pp_size = 16\<rparr>,
      \<lparr>fw_data = [7] @ concat (page_slices (sample_env False) [[1, 2], [3]]
                                (sample_footer INDEX_PAGE 3)),
       fw_capacity = 100\<rparr>) \<and>
   ParseFromArray (sample_env False)
       (SerializeToString (sample_env False) (sample_footer INDEX_PAGE 3)) =
     Some (sample_footer INDEX_PAGE 3) \<and>
   uncompressed_size (sample_footer INDEX_PAGE 3) =
     Some (of_nat (compute_total_size [[1, 2], [3]])) \<and>
   (\<exists>handle st'.
      read_and_decompress_page (sample_env False)
        (sample_opts
           (DirectFileReader ''seg''
              (([7] @ concat (page_slices (sample_env False) [[1, 2], [3]]
                                (sample_footer INDEX_PAGE 3))) @ [8, 8]))
           \<lparr>pp_offset = 1, pp_size = 16\<rparr> True)
        \<lparr>stats = empty_stats, page_cache = None, file_cache = None\<rparr> =
      (Inr (handle, [1, 2, 3], sample_footer INDEX_PAGE 3), st'))"
proof -
  let ?E = "sample_env False"
  let ?F = "sample_footer INDEX_PAGE 3"
  let ?W = "\<lparr>fw_data = [7], fw_capacity = 100\<rparr>"
  let ?W' = "\<lparr>fw_data = [7] @ concat (page_slices ?E [[1, 2], [3]] ?F), fw_capacity = 100\<rparr>"
  let ?ptr = "\<lparr>pp_offset = 1, pp_size = 16\<rparr>"
  let ?opts = "sample_opts (DirectFileReader ''seg'' (fw_data ?W' @ [8, 8])) ?ptr True"
  let ?st = "\<lparr>stats = empty_stats, page_cache = None, file_cache = None\<rparr>"
  have h1: "write_page ?E ?W [[1, 2], [3]] ?F = (Inr ?ptr, ?W')"
    using write_page_success [of ?F ?W "[[1, 2], [3]]" ?E]
    by (simp add: sample_footer_sane bytes_appended_def compute_total_size_def)
  have h2: "ParseFromArray ?E (SerializeToString ?E ?F) = Some ?F"
    by (simp add: sample_parse_serialize)
  have h3: "uncompressed_size ?F = Some (of_nat (compute_total_size [[1, 2], [3]]))"
    by (simp add: sample_footer_def compute_total_size_def)
  have h4: "file_reader ?opts = DirectFileReader ''seg'' (fw_data ?W' @ [8, 8])" by simp
  have h5: "page_pointer ?opts = ?ptr" by simp
  have h6: "verify_checksum ?opts" by simp
  have h7: "pre_decode ?opts \<longrightarrow>
       (\<forall>info. encoding_info ?opts = Some info \<longrightarrow> get_data_page_pre_decoder info = None)"
    by simp
  have h8: "lookup_page_cache ?opts ?st = None" by simp
  from page_round_trip [OF h1 h2 h3 h4 h5 h6 h7 h8]
  obtain handle st' where
    "read_and_decompress_page ?E ?opts ?st = (Inr (handle, concat [[1, 2], [3]], ?F), st')"
    by blast
  then have "\<exists>handle st'. read_and_decompress_page ?E ?opts ?st = (Inr (handle, [1, 2, 3], ?F), st')"
    by simp
  then show ?thesis using h1 h2 h3 by simp
qed

section \<open>A changed byte in a stored page\<close>

lemma checksum_mismatch_changed_byte:
  assumes i: "i < length payload + 4"
    and b: "b \<noteq> (payload @ encode_fixed32_le (Value payload)) ! i"
  shows "checksum_mismatch ((payload @ encode_fixed32_le (Value payload))[i := b])"
proof (cases "i < length payload")
  case True
  then have b': "b \<noteq> payload ! i" using b by (simp add: nth_append)
  have "(payload @ encode_fixed32_le (Value payload))[i := b] =
        payload[i := b] @ encode_fixed32_le (Value payload)"
    using True by (simp add: list_update_append)
  moreover have "checksum_mismatch (payload[i := b] @ encode_fixed32_le (Value payload))"
    using Value_changed_byte [OF True b']
    by (subst checksum_mismatch_append) (auto simp: decode_encode_fixed32_le)
  ultimately show ?thesis by simp
next
  case False
  let ?c = "encode_fixed32_le (Value payload)"
  let ?j = "i - length payload"
  have j: "?j < length ?c" using i False by simp
  have b': "b \<noteq> ?c ! ?j" using b False by (simp add: nth_append)
  have ne: "?c[?j := b] \<noteq> ?c"
  proof
    assume "?c[?j := b] = ?c"
    then have "?c[?j := b] ! ?j = ?c ! ?j" by simp
    then show False using j b' by simp
  qed
  have "decode_fixed32_le (?c[?j := b]) \<noteq> decode_fixed32_le ?c"
    using decode_fixed32_le_inj [of "?c[?j := b]" ?c] ne by auto
  then have "checksum_mismatch (payload @ ?c[?j := b])"
    by (subst checksum_mismatch_append) (auto simp: decode_encode_fixed32_le)
  moreover have "(payload @ ?c)[i := b] = payload @ ?c[?j := b]"
    using False by (simp add: list_update_append)
  ultimately show ?thesis by simp
qed

lemma list_update_append_right:
  "length xs \<le> i \<Longrightarrow> (xs @ ys)[i := b] = xs @ ys[i - length xs := b]"
  by (simp add: list_update_append)

lemma list_update_append_left:
  "i < length xs \<Longrightarrow> (xs @ ys)[i := b] = xs[i := b] @ ys"
  by (simp add: list_update_append)

lemma list_update_middle:
  "length pre \<le> k \<Longrightarrow> k < length pre + length page \<Longrightarrow>
   (pre @ page @ post)[k := b] = pre @ page[k - length pre := b] @ post"
proof -
  assume "length pre \<le> k" "k < length pre + length page"
  then have "\<not> k < length pre" "k - length pre < length page" by arith+
  then show ?thesis by (simp add: list_update_append)
qed

lemma nth_middle:
  "length pre \<le> k \<Longrightarrow> k < length pre + length page \<Longrightarrow>
   (pre @ page @ post) ! k = page ! (k - length pre)"
proof -
  assume "length pre \<le> k" "k < length pre + length page"
  then have "\<not> k < length pre" "k - length pre < length page" by arith+
  then show ?thesis by (simp add: nth_append)
qed

text \<open>
  C4. Take a page written by \<open>write_page\<close> and change one of its stored bytes. With
  checksum verification the read returns \<open>CORRUPTION\<close>, whichever byte it is. Without
  verification the stored checksum is not looked at: under the conditions of the round
  trip, a change in the four checksum bytes reads back the original body and footer, and a
  change in the body reads back the body with that byte changed.
\<close>

theorem checksum_sensitivity:
  fixes env :: "'m Env"
  assumes wr: "write_page env writer body footer = (Inr ptr, writer')"
    and k1: "pp_offset ptr \<le> k"
    and k2: "k < pp_offset ptr + unat (pp_size ptr)"
    and b: "b \<noteq> (fw_data writer' @ later) ! k"
    and fr: "file_reader opts = DirectFileReader p ((fw_data writer' @ later)[k := b])"
    and pp: "page_pointer opts = ptr"
    and miss: "lookup_page_cache opts st = None"
  shows "(verify_checksum opts \<longrightarrow>
            fst (read_and_decompress_page_impl env opts st) = Inl CORRUPTION \<and>
            fst (read_and_decompress_page env opts st) = Inl CORRUPTION) \<and>
         (\<not> verify_checksum opts \<and>
          ParseFromArray env (SerializeToString env footer) = Some footer \<and>
          uncompressed_size footer = Some (of_nat (compute_total_size body)) \<and>
          (pre_decode opts \<longrightarrow>
             (\<forall>info. encoding_info opts = Some info \<longrightarrow> get_data_page_pre_decoder info = None))
          \<longrightarrow>
            (pp_offset ptr + unat (pp_size ptr) - 4 \<le> k \<longrightarrow>
               (\<exists>handle st'. read_and_decompress_page env opts st =
                                (Inr (handle, concat body, footer), st'))) \<and>
            (k < pp_offset ptr + compute_total_size body \<longrightarrow>
               (\<exists>handle st'. read_and_decompress_page env opts st =
                                (Inr (handle, (concat body)[k - pp_offset ptr := b], footer), st'))))"
proof -
  let ?ser = "SerializeToString env footer"
  let ?len4 = "encode_fixed32_le (of_nat (length ?ser) :: 32 word)"
  let ?payload = "concat body @ ?ser @ ?len4"
  let ?crc4 = "encode_fixed32_le (Value ?payload)"
  let ?page = "?payload @ ?crc4"
  let ?pre = "fw_data writer"
  let ?i = "k - length ?pre"
  note w = write_page_Inr [OF wr]
  have small: "length (concat body) + length ?ser + 8 < 2 ^ 32"
    using w by (simp add: compute_total_size_concat)
  have eq: "(Inr ptr, writer') =
           (Inr \<lparr>pp_offset = bytes_appended writer,
                 pp_size = of_nat (compute_total_size body + length ?ser + 8)\<rparr>,
            writer\<lparr>fw_data := fw_data writer @ concat (page_slices env body footer)\<rparr>)"
    using write_page_success [of footer writer body env] w wr by simp
  have ptr: "pp_offset ptr = length ?pre"
    "pp_size ptr = of_nat (length (concat body) + length ?ser + 8)"
    using eq by (auto simp: bytes_appended_def compute_total_size_concat)
  have data: "fw_data writer' = ?pre @ ?page"
    using eq by (auto simp: concat_page_slices Let_def)
  have usz: "unat (pp_size ptr) = length (concat body) + length ?ser + 8"
    unfolding ptr by (rule of_nat_inverse [OF refl]) (use small in simp)
  have lp: "length ?page = length (concat body) + length ?ser + 8" by simp
  have kl: "length ?pre \<le> k" using k1 ptr by simp
  have ku: "k < length ?pre + length ?page" using k2 ptr usz lp by simp
  have i: "?i < length ?payload + 4" using kl ku by simp
  have fl: "(fw_data writer' @ later)[k := b] = ?pre @ ?page[?i := b] @ later"
    unfolding data using list_update_middle [OF kl ku, of later b] by simp
  have bi: "b \<noteq> ?page ! ?i"
    using b unfolding data using nth_middle [OF kl ku, of later] by simp
  have fr': "file_reader opts = DirectFileReader p (?pre @ ?page[?i := b] @ later)"
    using fr fl by simp
  have off: "pp_offset (page_pointer opts) = length ?pre" by (simp add: pp ptr)
  have sz: "unat (pp_size (page_pointer opts)) = length (?page[?i := b])"
    using usz lp by (simp add: pp)
  have n8: "8 \<le> length (?page[?i := b])" by simp
  have direct: "read_and_decompress_page env opts st = read_and_decompress_page_impl env opts st"
    by (rule read_and_decompress_page_direct [OF fr])
  have A: "verify_checksum opts \<longrightarrow> fst (read_and_decompress_page_impl env opts st) = Inl CORRUPTION"
  proof
    assume v: "verify_checksum opts"
    have "checksum_mismatch (?page[?i := b])"
      by (rule checksum_mismatch_changed_byte [OF i bi])
    then show "fst (read_and_decompress_page_impl env opts st) = Inl CORRUPTION"
      unfolding read_impl_miss [OF miss] read_page_from_file_direct [OF fr' off sz n8]
      using v by simp
  qed
  have B: "\<exists>handle st'. read_and_decompress_page_impl env opts st =
                                (Inr (handle, concat body, footer), st')"
    if nv: "\<not> verify_checksum opts"
      and parse: "ParseFromArray env ?ser = Some footer"
      and us: "uncompressed_size footer = Some (of_nat (compute_total_size body))"
      and nopre: "pre_decode opts \<longrightarrow>
             (\<forall>info. encoding_info opts = Some info \<longrightarrow> get_data_page_pre_decoder info = None)"
      and kc: "pp_offset ptr + unat (pp_size ptr) - 4 \<le> k"
  proof -
    have ge: "length ?payload \<le> ?i" using kc kl ptr usz by simp
    have upd: "?page[?i := b] = ?payload @ ?crc4[?i - length ?payload := b]"
      using ge by (rule list_update_append_right)
    have fr2: "file_reader opts = DirectFileReader p
        (?pre @ (concat body @ ?ser @ ?len4 @ ?crc4[?i - length ?payload := b]) @ later)"
      using fr' unfolding upd by simp
    have gus: "get_uncompressed_size footer = of_nat (length (concat body))"
      by (simp add: get_uncompressed_size_def us compute_total_size_concat)
    have sz2: "unat (pp_size (page_pointer opts)) = length (concat body) + length ?ser + 8"
      using usz by (simp add: pp)
    show ?thesis
      by (rule read_stored_page [OF fr2 off sz2 _ small _ parse gus nopre miss])
         (simp_all add: nv)
  qed
  have C: "\<exists>handle st'. read_and_decompress_page_impl env opts st =
                  (Inr (handle, (concat body)[k - pp_offset ptr := b], footer), st')"
    if nv: "\<not> verify_checksum opts"
      and parse: "ParseFromArray env ?ser = Some footer"
      and us: "uncompressed_size footer = Some (of_nat (compute_total_size body))"
      and nopre: "pre_decode opts \<longrightarrow>
             (\<forall>info. encoding_info opts = Some info \<longrightarrow> get_data_page_pre_decoder info = None)"
      and kb: "k < pp_offset ptr + compute_total_size body"
  proof -
    have lt: "?i < length (concat body)"
      using kb kl ptr by (simp add: compute_total_size_concat)
    have u1: "?payload[?i := b] = (concat body)[?i := b] @ ?ser @ ?len4"
      using lt by (rule list_update_append_left)
    have u2: "?page[?i := b] = ?payload[?i := b] @ ?crc4"
      by (rule list_update_append_left) (use lt in simp)
    have upd: "?page[?i := b] = (concat body)[?i := b] @ ?ser @ ?len4 @ ?crc4"
      unfolding u2 u1 by simp
    have fr2: "file_reader opts = DirectFileReader p
        (?pre @ ((concat body)[?i := b] @ ?ser @ ?len4 @ ?crc4) @ later)"
      using fr' unfolding upd by simp
    have gus: "get_uncompressed_size footer = of_nat (length ((concat body)[?i := b]))"
      by (simp add: get_uncompressed_size_def us compute_total_size_concat)
    have sz2: "unat (pp_size (page_pointer opts)) =
                 length ((concat body)[?i := b]) + length ?ser + 8"
      using usz by (simp add: pp)
    have small2: "length ((concat body)[?i := b]) + length ?ser + 8 < 2 ^ 32"
      using small by simp
    have "\<exists>handle st'. read_and_decompress_page_impl env opts st =
                  (Inr (handle, (concat body)[?i := b], footer), st')"
      by (rule read_stored_page [OF fr2 off sz2 _ small2 _ parse gus nopre miss])
         (simp_all add: nv)
    then show ?thesis by (simp add: ptr)
  qed
  show ?thesis
    unfolding direct using A B C by blast
qed

lemma encode_3: "encode_fixed32_le 3 = [3, 0, 0, 0]"
  by (simp add: encode_fixed32_le_def drop_bit_eq_div)

lemma encode_2: "encode_fixed32_le 2 = [2, 0, 0, 0]"
  by (simp add: encode_fixed32_le_def drop_bit_eq_div)

lemma sample_page_3:
  "concat (page_slices (sample_env False) [[1, 2, 3]] (sample_footer DATA_PAGE 3)) =
     [1, 2, 3, 1, 3, 0, 0, 0, 5, 0, 0, 0] @
     encode_fixed32_le (Value [1, 2, 3, 1, 3, 0, 0, 0, 5, 0, 0, 0])"
  by (simp add: concat_page_slices Let_def sample_serialize_footer sample_type_tag_def
      encode_3 encode_5)

lemma sample_write_3:
  "write_page (sample_env False) \<lparr>fw_data = [], fw_capacity = 100\<rparr> [[1, 2, 3]]
       (sample_footer DATA_PAGE 3) =
     (Inr \<lparr>pp_offset = 0, pp_size = 16\<rparr>,
      \<lparr>fw_data = concat (page_slices (sample_env False) [[1, 2, 3]] (sample_footer DATA_PAGE 3)),
       fw_capacity = 100\<rparr>)"
  using write_page_success [of "sample_footer DATA_PAGE 3" "\<lparr>fw_data = [], fw_capacity = 100\<rparr>"
      "[[1, 2, 3]]" "sample_env False"]
  by (simp add: sample_footer_sane bytes_appended_def compute_total_size_def)

lemma sample_read_3_footer_changed:
  "fst (read_and_decompress_page_impl (sample_env False)
          (sample_opts
             (DirectFileReader ''seg''
                ((concat (page_slices (sample_env False) [[1, 2, 3]] (sample_footer DATA_PAGE 3)))
                   [4 := 2]))
             \<lparr>pp_offset = 0, pp_size = 16\<rparr> False)
          \<lparr>stats = empty_stats, page_cache = None, file_cache = None\<rparr>) = Inl CORRUPTION"
proof -
  let ?F = "sample_serialize (sample_footer DATA_PAGE 2)"
  let ?C = "encode_fixed32_le (Value [1, 2, 3, 1, 3, 0, 0, 0, 5, 0, 0, 0])"
  let ?opts = "sample_opts
             (DirectFileReader ''seg''
                ((concat (page_slices (sample_env False) [[1, 2, 3]] (sample_footer DATA_PAGE 3)))
                   [4 := 2]))
             \<lparr>pp_offset = 0, pp_size = 16\<rparr> False"
  have upd: "([1, 2, 3, 1, 3, 0, 0, 0, 5, 0, 0, 0] @ ?C)[4 := 2] =
             [1, 2, 3, 1, 2, 0, 0, 0, 5, 0, 0, 0 :: byte] @ ?C"
    by (simp add: eval_nat_numeral)
  have fr: "file_reader ?opts = DirectFileReader ''seg''
        ([] @ ([1, 2, 3] @ ?F @ encode_fixed32_le (of_nat (length ?F)) @ ?C) @ [])"
    unfolding sample_page_3 upd
    by (simp add: sample_serialize_footer sample_type_tag_def encode_2 encode_5)
  show ?thesis
    by (rule read_stored_page_no_codec [OF fr, where footer = "sample_footer DATA_PAGE 2"])
       (simp_all add: sample_parse_serialize)
qed

theorem checksum_sensitivity_counterexample:
  "write_page (sample_env False) \<lparr>fw_data = [], fw_capacity = 100\<rparr> [[1, 2, 3]]
       (sample_footer DATA_PAGE 3) =
     (Inr \<lparr>pp_offset = 0, pp_size = 16\<rparr>,
      \<lparr>fw_data = concat (page_slices (sample_env False) [[1, 2, 3]] (sample_footer DATA_PAGE 3)),
       fw_capacity = 100\<rparr>) \<and>
   concat (page_slices (sample_env False) [[1, 2, 3]] (sample_footer DATA_PAGE 3)) ! 4 = 3 \<and>
   fst (read_and_decompress_page (sample_env False)
          (sample_opts
             (DirectFileReader ''seg''
                ((concat (page_slices (sample_env False) [[1, 2, 3]] (sample_footer DATA_PAGE 3)))
                   [4 := 2]))
             \<lparr>pp_offset = 0, pp_size = 16\<rparr> False)
          \<lparr>stats = empty_stats, page_cache = None, file_cache = None\<rparr>) = Inl CORRUPTION"
proof -
  have "concat (page_slices (sample_env False) [[1, 2, 3]] (sample_footer DATA_PAGE 3)) ! 4 = 3"
    unfolding sample_page_3 by (simp add: eval_nat_numeral)
  then show ?thesis
    using sample_write_3 sample_read_3_footer_changed
    by (simp add: read_and_decompress_page_direct [where p = "''seg''"])
qed

theorem checksum_sensitivity_witness:
  "write_page (sample_env False) \<lparr>fw_data = [], fw_capacity = 100\<rparr> [[1, 2, 3]]
       (sample_footer DATA_PAGE 3) =
     (Inr \<lparr>pp_offset = 0, pp_size = 16\<rparr>,
      \<lparr>fw_data = concat (page_slices (sample_env False) [[1, 2, 3]] (sample_footer DATA_PAGE 3)),
       fw_capacity = 100\<rparr>) \<and>
   pp_offset \<lparr>pp_offset = 0, pp_size = 16\<rparr> \<le> 0 \<and>
   0 < pp_offset \<lparr>pp_offset = 0, pp_size = 16\<rparr> + unat (pp_size \<lparr>pp_offset = 0, pp_size = 16\<rparr>) \<and>
   9 \<noteq> (concat (page_slices (sample_env False) [[1, 2, 3]] (sample_footer DATA_PAGE 3)) @ []) ! 0 \<and>
   fst (read_and_decompress_page (sample_env False)
          (sample_opts
             (DirectFileReader ''seg''
                ((concat (page_slices (sample_env False) [[1, 2, 3]] (sample_footer DATA_PAGE 3))
                    @ [])[0 := 9]))
             \<lparr>pp_offset = 0, pp_size = 16\<rparr> True)
          \<lparr>stats = empty_stats, page_cache = None, file_cache = None\<rparr>) = Inl CORRUPTION"
proof -
  let ?E = "sample_env False"
  let ?F = "sample_footer DATA_PAGE 3"
  let ?W = "\<lparr>fw_data = [], fw_capacity = 100\<rparr>"
  let ?W' = "\<lparr>fw_data = concat (page_slices ?E [[1, 2, 3]] ?F), fw_capacity = 100\<rparr>"
  let ?ptr = "\<lparr>pp_offset = 0, pp_size = 16\<rparr>"
  let ?opts = "sample_opts (DirectFileReader ''seg'' ((fw_data ?W' @ [])[0 := 9])) ?ptr True"
  let ?st = "\<lparr>stats = empty_stats, page_cache = None, file_cache = None\<rparr>"
  have h1: "write_page ?E ?W [[1, 2, 3]] ?F = (Inr ?ptr, ?W')"
    by (rule sample_write_3)
  have h2: "pp_offset ?ptr \<le> 0" by simp
  have h3: "0 < pp_offset ?ptr + unat (pp_size ?ptr)" by simp
  have h4: "9 \<noteq> (fw_data ?W' @ []) ! 0"
    by (simp add: sample_page_3)
  have h5: "file_reader ?opts = DirectFileReader ''seg'' ((fw_data ?W' @ [])[0 := 9])" by simp
  have h6: "page_pointer ?opts = ?ptr" by simp
  have h7: "lookup_page_cache ?opts ?st = None" by simp
  have v: "verify_checksum ?opts" by simp
  note th = checksum_sensitivity [OF h1 h2 h3 h4 h5 h6 h7]
  have "fst (read_and_decompress_page ?E ?opts ?st) = Inl CORRUPTION"
    using th [THEN conjunct1, rule_format, OF v] by blast
  then show ?thesis using h1 h4 by simp
qed

section \<open>The retry after a corrupt page\<close>

lemma read_at_stats [simp]: "stats (snd (read_at env r off n st)) = stats st"
  by (induction env r off n st rule: read_at.induct) (auto split: option.splits)

lemma finish_page_total [simp]:
  "total_pages_num (stats (snd (finish_page opts footer footer_size page_slice st))) =
     total_pages_num (stats st)"
  by (simp add: finish_page_def Let_def upd_stats_def split: option.splits)

lemma parse_page_total [simp]:
  "total_pages_num (stats (snd (parse_page env opts page_slice st))) = total_pages_num (stats st)"
  by (simp add: parse_page_def Let_def split: option.splits sum.splits)

lemma read_page_from_file_total [simp]:
  "total_pages_num (stats (snd (read_page_from_file env opts st))) = total_pages_num (stats st)"
proof (cases "read_at env (file_reader opts) (pp_offset (page_pointer opts))
                (unat (pp_size (page_pointer opts))) st")
  case (Pair r st1)
  have "stats st1 = stats st"
    using read_at_stats [of env "file_reader opts" "pp_offset (page_pointer opts)"
        "unat (pp_size (page_pointer opts))" st] Pair by simp
  then show ?thesis
    by (cases r) (simp_all add: read_page_from_file_def Let_def Pair upd_stats_def)
qed

lemma read_cached_page_total [simp]:
  "total_pages_num (stats (snd (read_cached_page env page_slice st))) = total_pages_num (stats st)"
  by (simp add: read_cached_page_def Let_def upd_stats_def split: option.splits)

lemma read_impl_total:
  "total_pages_num (stats (snd (read_and_decompress_page_impl env opts st))) =
     total_pages_num (stats st) + 1"
  by (simp add: read_and_decompress_page_impl_def Let_def upd_stats_def split: option.splits)

lemma do_read_total [simp]:
  "total_pages_num (stats (snd (do_read_and_decompress_page env opts st))) =
     total_pages_num (stats st) + 1"
  by (simp add: do_read_and_decompress_page_def read_impl_total)

lemma remove_if_cached_stats [simp]: "stats (remove_if_cached key st) = stats st"
  by (simp add: remove_if_cached_def split: option.splits)

lemma rfind_last:
  "c \<notin> set base \<Longrightarrow> rfind (dir @ c # base) c = Some (length dir)"
proof -
  assume c: "c \<notin> set base"
  then have "takeWhile (\<lambda>x. x \<noteq> c) (rev base) = rev base"
    by auto
  then have "takeWhile (\<lambda>x. x \<noteq> c) (rev base @ c # rev dir) = rev base"
    by (simp add: takeWhile_tail)
  then show ?thesis by (simp add: rfind_def)
qed

lemma file_cache_key_basename:
  "CHR ''/'' \<notin> set base \<Longrightarrow>
   file_cache_key_from_path env (dir @ CHR ''/'' # base) = file_cache_hash env base"
  by (simp add: file_cache_key_from_path_def rfind_last)

lemma file_cache_key_no_slash:
  "CHR ''/'' \<notin> set seg_path \<Longrightarrow> file_cache_key_from_path env seg_path = file_cache_hash env seg_path"
  by (simp add: file_cache_key_from_path_def rfind_def)

text \<open>
  C6. The number of attempts is the growth of \<open>total_pages_num\<close>, which every call of
  \<open>read_and_decompress_page_\<close> increments once. With a reader that is not a
  \<open>CachedRemoteFileReader\<close>, outside cloud mode, or when the first attempt does not fail
  with \<open>CORRUPTION\<close>, the wrapper returns the first attempt. Otherwise it removes the entry
  of the file cache under the hash of the file's base name and reads again with the same
  options; if that attempt fails with \<open>CORRUPTION\<close> too, it reads a third time from the
  remote reader and returns that result, whatever it is.
\<close>

theorem corruption_retry:
  fixes env :: "'m Env" and opts :: PageReadOptions and st :: ReadState
  defines "r1 \<equiv> do_read_and_decompress_page env opts st"
  defines "file_key \<equiv> file_cache_key_from_path env (path_of (file_reader opts))"
  defines "r2 \<equiv> do_read_and_decompress_page env opts (remove_if_cached file_key (snd r1))"
  defines "res \<equiv> read_and_decompress_page env opts st"
  defines "attempts \<equiv> total_pages_num (stats (snd res)) - total_pages_num (stats st)"
  shows "(case file_reader opts of
            DirectFileReader p d \<Rightarrow> res = r1 \<and> attempts = 1
          | CachedRemoteFileReader remote_reader \<Rightarrow>
              if fst r1 = Inl CORRUPTION \<and> is_cloud_mode env
              then (if fst r2 = Inl CORRUPTION
                    then res = do_read_and_decompress_page env
                                 (opts\<lparr>file_reader := remote_reader\<rparr>) (snd r2) \<and>
                         attempts = 3
                    else res = r2 \<and> attempts = 2)
              else res = r1 \<and> attempts = 1) \<and>
         (\<forall>fc. file_cache (snd r1) = Some fc \<longrightarrow>
            file_cache (remove_if_cached file_key (snd r1)) = Some (fc(file_key := None))) \<and>
         (\<forall>dir base. path_of (file_reader opts) = dir @ CHR ''/'' # base \<and> CHR ''/'' \<notin> set base
            \<longrightarrow> file_key = file_cache_hash env base) \<and>
         (CHR ''/'' \<notin> set (path_of (file_reader opts)) \<longrightarrow>
            file_key = file_cache_hash env (path_of (file_reader opts)))"
proof -
  obtain a1 s1 where r1: "r1 = (a1, s1)" by (cases r1)
  obtain a2 s2 where r2: "r2 = (a2, s2)" by (cases r2)
  have "total_pages_num (stats (snd r1)) = total_pages_num (stats st) + 1"
    unfolding r1_def by (rule do_read_total)
  then have t1: "total_pages_num (stats s1) = total_pages_num (stats st) + 1"
    by (simp add: r1)
  have "total_pages_num (stats (snd r2)) =
          total_pages_num (stats (remove_if_cached file_key (snd r1))) + 1"
    unfolding r2_def by (rule do_read_total)
  then have t2: "total_pages_num (stats s2) = total_pages_num (stats st) + 2"
    using t1 by (simp add: r1 r2)
  have t3: "total_pages_num (stats (snd (do_read_and_decompress_page env opts' s2))) =
              total_pages_num (stats st) + 3" for opts'
    using t2 by simp
  have main: "case file_reader opts of
            DirectFileReader p d \<Rightarrow> res = r1 \<and> attempts = 1
          | CachedRemoteFileReader remote_reader \<Rightarrow>
              if fst r1 = Inl CORRUPTION \<and> is_cloud_mode env
              then (if fst r2 = Inl CORRUPTION
                    then res = do_read_and_decompress_page env
                                 (opts\<lparr>file_reader := remote_reader\<rparr>) (snd r2) \<and>
                         attempts = 3
                    else res = r2 \<and> attempts = 2)
              else res = r1 \<and> attempts = 1"
  proof (cases "file_reader opts")
    case (DirectFileReader p d)
    have "res = r1"
      unfolding res_def read_and_decompress_page_def r1_def [symmetric] r1
      by (simp add: DirectFileReader)
    then show ?thesis
      using t1 by (simp add: DirectFileReader attempts_def r1)
  next
    case (CachedRemoteFileReader remote_reader)
    have unf: "res =
        (if \<not> is_corruption a1 \<or> \<not> is_cloud_mode env then (a1, s1)
         else if \<not> is_corruption a2 then (a2, s2)
         else do_read_and_decompress_page env (opts\<lparr>file_reader := remote_reader\<rparr>) s2)"
      unfolding res_def read_and_decompress_page_def r1_def [symmetric] r1
      using r2 unfolding r2_def file_key_def r1_def [symmetric] r1
      by (simp add: CachedRemoteFileReader Let_def)
    show ?thesis
      unfolding CachedRemoteFileReader FileReader.case
      using t1 t2 t3
      by (auto simp: unf attempts_def r1 r2 is_corruption_def)
  qed
  have inv: "\<forall>fc. file_cache (snd r1) = Some fc \<longrightarrow>
            file_cache (remove_if_cached file_key (snd r1)) = Some (fc(file_key := None))"
    by (simp add: remove_if_cached_def)
  have k1: "\<forall>dir base. path_of (file_reader opts) = dir @ CHR ''/'' # base \<and>
             CHR ''/'' \<notin> set base \<longrightarrow> file_key = file_cache_hash env base"
    unfolding file_key_def using file_cache_key_basename by metis
  have k2: "CHR ''/'' \<notin> set (path_of (file_reader opts)) \<longrightarrow>
            file_key = file_cache_hash env (path_of (file_reader opts))"
    unfolding file_key_def by (simp add: file_cache_key_no_slash)
  show ?thesis using main inv k1 k2 by blast
qed

lemma read_page_from_file_bytes:
  assumes rd: "read_at env (file_reader opts) (pp_offset (page_pointer opts))
                 (unat (pp_size (page_pointer opts))) st = (Inr page, st1)"
    and n8: "8 \<le> unat (pp_size (page_pointer opts))"
  shows "read_page_from_file env opts st =
           (if verify_checksum opts \<and> checksum_mismatch page
            then (Inl CORRUPTION,
                  upd_stats (\<lambda>s. s\<lparr>compressed_bytes_read := compressed_bytes_read s +
                                unat (pp_size (page_pointer opts))\<rparr>) st1)
            else parse_page env opts (take (length page - 4) page)
                   (upd_stats (\<lambda>s. s\<lparr>compressed_bytes_read := compressed_bytes_read s +
                                 unat (pp_size (page_pointer opts))\<rparr>) st1))"
  using n8 by (simp add: read_page_from_file_def rd Let_def)

lemma parse_page_raw_owned:
  assumes F: "length F < 2 ^ 32"
    and parse: "ParseFromArray env F = Some footer"
    and usz: "get_uncompressed_size footer = of_nat (length B)"
    and nopre: "pre_decode opts \<longrightarrow>
       (\<forall>info. encoding_info opts = Some info \<longrightarrow> get_data_page_pre_decoder info = None)"
    and nocache: "\<not> use_page_cache opts"
  shows "fst (parse_page env opts (B @ F @ encode_fixed32_le (of_nat (length F))) st) =
           Inr (PageHandle_owned (B @ F @ encode_fixed32_le (of_nat (length F))), B, footer)"
proof -
  let ?payload = "B @ F @ encode_fixed32_le (of_nat (length F) :: 32 word)"
  have bs: "length ?payload - 4 - length F = length B" by simp
  have dp: "decompress_page opts footer (length F) ?payload = Inr ?payload"
    by (rule decompress_page_raw) (simp only: bs usz)
  have pp: "pre_decode_page opts footer (length F) ?payload = Inr ?payload"
    by (rule pre_decode_page_none [OF nopre])
  show ?thesis
    unfolding parse_page_layout [OF F]
    using nocache by (simp add: parse dp pp finish_page_def Let_def)
qed

text \<open>
  A tiered reader over the file \<open>dir/seg\<close>, whose local copy in the file cache has a
  changed first byte.
\<close>

lemma sample_tiered_first_read:
  fixes c :: bool
  defines "P \<equiv> [1, 2, 3, 1, 3, 0, 0, 0, 5, 0, 0, 0 :: byte]"
  defines "good \<equiv> P @ encode_fixed32_le (Value P)"
  defines "opts \<equiv> sample_opts (CachedRemoteFileReader (DirectFileReader ''dir/seg'' good))
                     \<lparr>pp_offset = 0, pp_size = 16\<rparr> True"
  shows "do_read_and_decompress_page (sample_env c) opts
           \<lparr>stats = empty_stats, page_cache = None, file_cache = Some [3 \<mapsto> good[0 := 9]]\<rparr> =
         (Inl CORRUPTION,
          \<lparr>stats = \<lparr>total_pages_num = 1, cached_pages_num = 0, compressed_bytes_read = 16,
                     uncompressed_bytes_read = 0\<rparr>,
           page_cache = None, file_cache = Some [3 \<mapsto> good[0 := 9]]\<rparr>)"
proof -
  let ?st = "\<lparr>stats = empty_stats, page_cache = None, file_cache = Some [3 \<mapsto> good[0 := 9]]\<rparr>"
  let ?sti = "upd_stats (\<lambda>s. s\<lparr>total_pages_num := total_pages_num s + 1\<rparr>) ?st"
  have key: "file_cache_key_from_path (sample_env c) ''dir/seg'' = 3"
    using file_cache_key_basename [of "''seg''" "sample_env c" "''dir''"]
    by (simp add: sample_env_def)
  have len: "length good = 16" by (simp add: good_def P_def)
  have rd: "read_at (sample_env c) (file_reader opts) (pp_offset (page_pointer opts))
              (unat (pp_size (page_pointer opts))) ?sti = (Inr (good[0 := 9]), ?sti)"
    by (simp add: opts_def key upd_stats_def read_range_def len)
  have n8: "8 \<le> unat (pp_size (page_pointer opts))" by (simp add: opts_def)
  have mm: "checksum_mismatch (good[0 := 9])"
    unfolding good_def
    by (rule checksum_mismatch_changed_byte) (simp_all add: P_def)
  have "read_page_from_file (sample_env c) opts ?sti =
          (Inl CORRUPTION,
           upd_stats (\<lambda>s. s\<lparr>compressed_bytes_read := compressed_bytes_read s +
                         unat (pp_size (page_pointer opts))\<rparr>) ?sti)"
    unfolding read_page_from_file_bytes [OF rd n8]
    using mm by (simp add: opts_def)
  then show ?thesis
    unfolding do_read_and_decompress_page_def
    by (simp add: read_impl_miss opts_def upd_stats_def empty_stats_def)
qed

lemma sample_tiered_second_read:
  fixes c :: bool
  defines "P \<equiv> [1, 2, 3, 1, 3, 0, 0, 0, 5, 0, 0, 0 :: byte]"
  defines "good \<equiv> P @ encode_fixed32_le (Value P)"
  defines "opts \<equiv> sample_opts (CachedRemoteFileReader (DirectFileReader ''dir/seg'' good))
                     \<lparr>pp_offset = 0, pp_size = 16\<rparr> True"
  shows "fst (do_read_and_decompress_page (sample_env c) opts
           \<lparr>stats = s, page_cache = None, file_cache = Some Map.empty\<rparr>) =
         Inr (PageHandle_owned P, [1, 2, 3], sample_footer DATA_PAGE 3)"
proof -
  let ?st = "\<lparr>stats = s, page_cache = None, file_cache = Some Map.empty\<rparr>"
  let ?sti = "upd_stats (\<lambda>s. s\<lparr>total_pages_num := total_pages_num s + 1\<rparr>) ?st"
  let ?F = "sample_serialize (sample_footer DATA_PAGE 3)"
  have key: "file_cache_key_from_path (sample_env c) ''dir/seg'' = 3"
    using file_cache_key_basename [of "''seg''" "sample_env c" "''dir''"]
    by (simp add: sample_env_def)
  have len: "length good = 16" by (simp add: good_def P_def)
  have rd: "read_at (sample_env c) (file_reader opts) (pp_offset (page_pointer opts))
              (unat (pp_size (page_pointer opts))) ?sti =
            (Inr good, ?sti\<lparr>file_cache := Some [3 \<mapsto> good]\<rparr>)"
    by (simp add: opts_def key upd_stats_def read_range_def len)
  have n8: "8 \<le> unat (pp_size (page_pointer opts))" by (simp add: opts_def)
  have nm: "\<not> checksum_mismatch good"
    unfolding good_def
    by (subst checksum_mismatch_append) (simp_all add: decode_encode_fixed32_le)
  have P: "P = [1, 2, 3] @ ?F @ encode_fixed32_le (of_nat (length ?F))"
    by (simp add: P_def sample_serialize_footer sample_type_tag_def encode_3 encode_5)
  have tk: "take (length good - 4) good = P" by (simp add: good_def)
  have pr: "fst (parse_page (sample_env c) opts
                   ([1, 2, 3] @ ?F @ encode_fixed32_le (of_nat (length ?F))) st') =
            Inr (PageHandle_owned ([1, 2, 3] @ ?F @ encode_fixed32_le (of_nat (length ?F))),
                 [1, 2, 3], sample_footer DATA_PAGE 3)" for st'
    by (rule parse_page_raw_owned) (simp_all add: sample_parse_serialize opts_def)
  have "fst (read_page_from_file (sample_env c) opts ?sti) =
          Inr (PageHandle_owned P, [1, 2, 3], sample_footer DATA_PAGE 3)"
    unfolding read_page_from_file_bytes [OF rd n8] tk
    using nm pr unfolding P [symmetric] by (simp add: opts_def)
  then show ?thesis
    unfolding do_read_and_decompress_page_def
    by (simp add: read_impl_miss opts_def)
qed

lemma sample_tiered_key:
  "file_cache_key_from_path (sample_env c) ''dir/seg'' = 3"
  using file_cache_key_basename [of "''seg''" "sample_env c" "''dir''"]
  by (simp add: sample_env_def)

theorem corruption_retry_counterexample:
  "fst (do_read_and_decompress_page (sample_env False)
      (sample_opts
        (CachedRemoteFileReader
           (DirectFileReader ''dir/seg''
              ([1, 2, 3, 1, 3, 0, 0, 0, 5, 0, 0, 0] @
               encode_fixed32_le (Value [1, 2, 3, 1, 3, 0, 0, 0, 5, 0, 0, 0]))))
        \<lparr>pp_offset = 0, pp_size = 16\<rparr> True)
      \<lparr>stats = empty_stats, page_cache = None,
        file_cache = Some [3 \<mapsto> (([1, 2, 3, 1, 3, 0, 0, 0, 5, 0, 0, 0] @
                 encode_fixed32_le (Value [1, 2, 3, 1, 3, 0, 0, 0, 5, 0, 0, 0]))[0 := 9])]\<rparr>) = Inl CORRUPTION \<and>
   fst (read_and_decompress_page (sample_env False)
      (sample_opts
        (CachedRemoteFileReader
           (DirectFileReader ''dir/seg''
              ([1, 2, 3, 1, 3, 0, 0, 0, 5, 0, 0, 0] @
               encode_fixed32_le (Value [1, 2, 3, 1, 3, 0, 0, 0, 5, 0, 0, 0]))))
        \<lparr>pp_offset = 0, pp_size = 16\<rparr> True)
      \<lparr>stats = empty_stats, page_cache = None,
        file_cache = Some [3 \<mapsto> (([1, 2, 3, 1, 3, 0, 0, 0, 5, 0, 0, 0] @
                 encode_fixed32_le (Value [1, 2, 3, 1, 3, 0, 0, 0, 5, 0, 0, 0]))[0 := 9])]\<rparr>) = Inl CORRUPTION \<and>
   total_pages_num (stats (snd (read_and_decompress_page (sample_env False)
      (sample_opts
        (CachedRemoteFileReader
           (DirectFileReader ''dir/seg''
              ([1, 2, 3, 1, 3, 0, 0, 0, 5, 0, 0, 0] @
               encode_fixed32_le (Value [1, 2, 3, 1, 3, 0, 0, 0, 5, 0, 0, 0]))))
        \<lparr>pp_offset = 0, pp_size = 16\<rparr> True)
      \<lparr>stats = empty_stats, page_cache = None,
        file_cache = Some [3 \<mapsto> (([1, 2, 3, 1, 3, 0, 0, 0, 5, 0, 0, 0] @
                 encode_fixed32_le (Value [1, 2, 3, 1, 3, 0, 0, 0, 5, 0, 0, 0]))[0 := 9])]\<rparr>))) = 1 \<and>
   file_cache (snd (read_and_decompress_page (sample_env False)
      (sample_opts
        (CachedRemoteFileReader
           (DirectFileReader ''dir/seg''
              ([1, 2, 3, 1, 3, 0, 0, 0, 5, 0, 0, 0] @
               encode_fixed32_le (Value [1, 2, 3, 1, 3, 0, 0, 0, 5, 0, 0, 0]))))
        \<lparr>pp_offset = 0, pp_size = 16\<rparr> True)
      \<lparr>stats = empty_stats, page_cache = None,
        file_cache = Some [3 \<mapsto> (([1, 2, 3, 1, 3, 0, 0, 0, 5, 0, 0, 0] @
                 encode_fixed32_le (Value [1, 2, 3, 1, 3, 0, 0, 0, 5, 0, 0, 0]))[0 := 9])]\<rparr>)) =
     Some [3 \<mapsto> (([1, 2, 3, 1, 3, 0, 0, 0, 5, 0, 0, 0] @
                 encode_fixed32_le (Value [1, 2, 3, 1, 3, 0, 0, 0, 5, 0, 0, 0]))[0 := 9])] \<and>
   file_cache_key_from_path (sample_env False) (path_of (file_reader
      (sample_opts
        (CachedRemoteFileReader
           (DirectFileReader ''dir/seg''
              ([1, 2, 3, 1, 3, 0, 0, 0, 5, 0, 0, 0] @
               encode_fixed32_le (Value [1, 2, 3, 1, 3, 0, 0, 0, 5, 0, 0, 0]))))
        \<lparr>pp_offset = 0, pp_size = 16\<rparr> True))) = 3"
proof -
  let ?E = "sample_env False"
  let ?opts = "(sample_opts
        (CachedRemoteFileReader
           (DirectFileReader ''dir/seg''
              ([1, 2, 3, 1, 3, 0, 0, 0, 5, 0, 0, 0] @
               encode_fixed32_le (Value [1, 2, 3, 1, 3, 0, 0, 0, 5, 0, 0, 0]))))
        \<lparr>pp_offset = 0, pp_size = 16\<rparr> True)"
  let ?sta = "\<lparr>stats = empty_stats, page_cache = None,
        file_cache = Some [3 \<mapsto> (([1, 2, 3, 1, 3, 0, 0, 0, 5, 0, 0, 0] @
                 encode_fixed32_le (Value [1, 2, 3, 1, 3, 0, 0, 0, 5, 0, 0, 0]))[0 := 9])]\<rparr>"
  have r1: "do_read_and_decompress_page ?E ?opts ?sta =
         (Inl CORRUPTION,
          \<lparr>stats = \<lparr>total_pages_num = 1, cached_pages_num = 0, compressed_bytes_read = 16,
                     uncompressed_bytes_read = 0\<rparr>,
           page_cache = None, file_cache = Some [3 \<mapsto> (([1, 2, 3, 1, 3, 0, 0, 0, 5, 0, 0, 0] @
                 encode_fixed32_le (Value [1, 2, 3, 1, 3, 0, 0, 0, 5, 0, 0, 0]))[0 := 9])]\<rparr>)"
    by (rule sample_tiered_first_read)
  have res: "read_and_decompress_page ?E ?opts ?sta =
         (Inl CORRUPTION,
          \<lparr>stats = \<lparr>total_pages_num = 1, cached_pages_num = 0, compressed_bytes_read = 16,
                     uncompressed_bytes_read = 0\<rparr>,
           page_cache = None, file_cache = Some [3 \<mapsto> (([1, 2, 3, 1, 3, 0, 0, 0, 5, 0, 0, 0] @
                 encode_fixed32_le (Value [1, 2, 3, 1, 3, 0, 0, 0, 5, 0, 0, 0]))[0 := 9])]\<rparr>)"
    unfolding read_and_decompress_page_def r1 by simp
  have key: "file_cache_key_from_path ?E (path_of (file_reader ?opts)) = 3"
    by (simp add: sample_tiered_key)
  show ?thesis
    unfolding res r1 key by simp
qed


theorem corruption_retry_witness:
  "is_cloud_mode (sample_env True) \<and>
   fst (do_read_and_decompress_page (sample_env True)
      (sample_opts
        (CachedRemoteFileReader
           (DirectFileReader ''dir/seg''
              ([1, 2, 3, 1, 3, 0, 0, 0, 5, 0, 0, 0] @
               encode_fixed32_le (Value [1, 2, 3, 1, 3, 0, 0, 0, 5, 0, 0, 0]))))
        \<lparr>pp_offset = 0, pp_size = 16\<rparr> True)
      \<lparr>stats = empty_stats, page_cache = None,
        file_cache = Some [3 \<mapsto> (([1, 2, 3, 1, 3, 0, 0, 0, 5, 0, 0, 0] @
                 encode_fixed32_le (Value [1, 2, 3, 1, 3, 0, 0, 0, 5, 0, 0, 0]))[0 := 9])]\<rparr>) = Inl CORRUPTION \<and>
   fst (read_and_decompress_page (sample_env True)
      (sample_opts
        (CachedRemoteFileReader
           (DirectFileReader ''dir/seg''
              ([1, 2, 3, 1, 3, 0, 0, 0, 5, 0, 0, 0] @
               encode_fixed32_le (Value [1, 2, 3, 1, 3, 0, 0, 0, 5, 0, 0, 0]))))
        \<lparr>pp_offset = 0, pp_size = 16\<rparr> True)
      \<lparr>stats = empty_stats, page_cache = None,
        file_cache = Some [3 \<mapsto> (([1, 2, 3, 1, 3, 0, 0, 0, 5, 0, 0, 0] @
                 encode_fixed32_le (Value [1, 2, 3, 1, 3, 0, 0, 0, 5, 0, 0, 0]))[0 := 9])]\<rparr>) =
     Inr (PageHandle_owned [1, 2, 3, 1, 3, 0, 0, 0, 5, 0, 0, 0], [1, 2, 3],
          sample_footer DATA_PAGE 3) \<and>
   total_pages_num (stats (snd (read_and_decompress_page (sample_env True)
      (sample_opts
        (CachedRemoteFileReader
           (DirectFileReader ''dir/seg''
              ([1, 2, 3, 1, 3, 0, 0, 0, 5, 0, 0, 0] @
               encode_fixed32_le (Value [1, 2, 3, 1, 3, 0, 0, 0, 5, 0, 0, 0]))))
        \<lparr>pp_offset = 0, pp_size = 16\<rparr> True)
      \<lparr>stats = empty_stats, page_cache = None,
        file_cache = Some [3 \<mapsto> (([1, 2, 3, 1, 3, 0, 0, 0, 5, 0, 0, 0] @
                 encode_fixed32_le (Value [1, 2, 3, 1, 3, 0, 0, 0, 5, 0, 0, 0]))[0 := 9])]\<rparr>))) -
   total_pages_num (stats
      \<lparr>stats = empty_stats, page_cache = None,
        file_cache = Some [3 \<mapsto> (([1, 2, 3, 1, 3, 0, 0, 0, 5, 0, 0, 0] @
                 encode_fixed32_le (Value [1, 2, 3, 1, 3, 0, 0, 0, 5, 0, 0, 0]))[0 := 9])]\<rparr>) = 2"
proof -
  let ?E = "sample_env True"
  let ?opts = "(sample_opts
        (CachedRemoteFileReader
           (DirectFileReader ''dir/seg''
              ([1, 2, 3, 1, 3, 0, 0, 0, 5, 0, 0, 0] @
               encode_fixed32_le (Value [1, 2, 3, 1, 3, 0, 0, 0, 5, 0, 0, 0]))))
        \<lparr>pp_offset = 0, pp_size = 16\<rparr> True)"
  let ?sta = "\<lparr>stats = empty_stats, page_cache = None,
        file_cache = Some [3 \<mapsto> (([1, 2, 3, 1, 3, 0, 0, 0, 5, 0, 0, 0] @
                 encode_fixed32_le (Value [1, 2, 3, 1, 3, 0, 0, 0, 5, 0, 0, 0]))[0 := 9])]\<rparr>"
  have r1: "do_read_and_decompress_page ?E ?opts ?sta =
         (Inl CORRUPTION,
          \<lparr>stats = \<lparr>total_pages_num = 1, cached_pages_num = 0, compressed_bytes_read = 16,
                     uncompressed_bytes_read = 0\<rparr>,
           page_cache = None, file_cache = Some [3 \<mapsto> (([1, 2, 3, 1, 3, 0, 0, 0, 5, 0, 0, 0] @
                 encode_fixed32_le (Value [1, 2, 3, 1, 3, 0, 0, 0, 5, 0, 0, 0]))[0 := 9])]\<rparr>)"
    by (rule sample_tiered_first_read)
  have key: "file_cache_key_from_path ?E (path_of (file_reader ?opts)) = 3"
    by (simp add: sample_tiered_key)
  have rm: "remove_if_cached 3
          \<lparr>stats = \<lparr>total_pages_num = 1, cached_pages_num = 0, compressed_bytes_read = 16,
                     uncompressed_bytes_read = 0\<rparr>,
           page_cache = None, file_cache = Some [3 \<mapsto> (([1, 2, 3, 1, 3, 0, 0, 0, 5, 0, 0, 0] @
                 encode_fixed32_le (Value [1, 2, 3, 1, 3, 0, 0, 0, 5, 0, 0, 0]))[0 := 9])]\<rparr> =
          \<lparr>stats = \<lparr>total_pages_num = 1, cached_pages_num = 0, compressed_bytes_read = 16,
                     uncompressed_bytes_read = 0\<rparr>,
           page_cache = None, file_cache = Some Map.empty\<rparr>"
    by (simp add: remove_if_cached_def)
  have r2: "fst (do_read_and_decompress_page ?E ?opts
          \<lparr>stats = \<lparr>total_pages_num = 1, cached_pages_num = 0, compressed_bytes_read = 16,
                     uncompressed_bytes_read = 0\<rparr>,
           page_cache = None, file_cache = Some Map.empty\<rparr>) =
         Inr (PageHandle_owned [1, 2, 3, 1, 3, 0, 0, 0, 5, 0, 0, 0], [1, 2, 3],
              sample_footer DATA_PAGE 3)"
    by (rule sample_tiered_second_read)
  note th = corruption_retry [of ?E ?opts ?sta, THEN conjunct1]
  have both: "read_and_decompress_page ?E ?opts ?sta =
          do_read_and_decompress_page ?E ?opts
            \<lparr>stats = \<lparr>total_pages_num = 1, cached_pages_num = 0, compressed_bytes_read = 16,
                     uncompressed_bytes_read = 0\<rparr>,
             page_cache = None, file_cache = Some Map.empty\<rparr> \<and>
        total_pages_num (stats (snd (read_and_decompress_page ?E ?opts ?sta))) -
          total_pages_num (stats ?sta) = 2"
    using th unfolding key r1 snd_conv fst_conv rm r2
    by (simp add: empty_stats_def)
  have a: "fst (read_and_decompress_page ?E ?opts ?sta) =
     Inr (PageHandle_owned [1, 2, 3, 1, 3, 0, 0, 0, 5, 0, 0, 0], [1, 2, 3],
          sample_footer DATA_PAGE 3)"
    unfolding both [THEN conjunct1] by (rule r2)
  note b = both [THEN conjunct2]
  have c: "fst (do_read_and_decompress_page ?E ?opts ?sta) = Inl CORRUPTION"
    unfolding r1 by simp
  have d: "is_cloud_mode ?E" by simp
  show ?thesis using d c a b by blast
qed

end
